theory Spec2Isabelle
  imports Main "HOL-Library.Word"
begin

section \<open>Basic types\<close>

text \<open>
  \<open>u256\<close> is the unchecked 256-bit unsigned integer of libdevcore (arithmetic wraps modulo
  \<open>2 ^ 256\<close>), \<open>bigint\<close> the unbounded integer, \<open>h256\<close> a 32-byte hash read as a
  big-endian number, \<open>Address\<close> a 20-byte hash, \<open>bytes\<close> a byte vector.
\<close>

type_synonym u256 = "256 word"
type_synonym h256 = "256 word"
type_synonym Address = "160 word"
type_synonym bytes = "8 word list"
type_synonym bigint = int

text \<open>\<open>right160\<close> keeps the rightmost 20 bytes of a 32-byte hash.\<close>

definition right160 :: "h256 \<Rightarrow> Address" where
  "right160 h = ucast h"

text \<open>\<open>EmptySHA3\<close>, the Keccak-256 digest of the empty byte string.\<close>

definition EmptySHA3 :: h256 where
  "EmptySHA3 = 0xc5d2460186f7233c927e7db2dcc703c0e500b653ca82273b7bfad8045d85a470"

text \<open>\<open>EmptyTrie\<close>, the root of the empty trie: the Keccak-256 digest of the RLP encoding of
  the empty string.\<close>

definition EmptyTrie :: h256 where
  "EmptyTrie = 0x56e81f171bcc55a6ff8345e692c0f86e5b48e01b996cadc001622fb5e363b421"

text \<open>The C++ exceptions that leave the functions modelled here.\<close>

datatype Exception =
    ExBlockGasLimitReached
  | ExOutOfGasBase
  | ExInvalidSignature
  | ExInvalidNonce
  | ExNotEnoughCash

section \<open>State.h: the change log\<close>

text \<open>\<open>detail::Change::Kind\<close> and \<open>detail::Change\<close>, with the two helper constructors.\<close>

datatype Kind = Balance | Storage | Nonce | Create | NewCode | Touch

record Change =
  change_kind :: Kind
  change_address :: Address
  change_value :: u256
  change_key :: u256

definition mkChange :: "Kind \<Rightarrow> Address \<Rightarrow> u256 \<Rightarrow> Change" where
  "mkChange k a v = \<lparr>change_kind = k, change_address = a, change_value = v, change_key = 0\<rparr>"

definition mkStorageChange :: "Address \<Rightarrow> u256 \<Rightarrow> u256 \<Rightarrow> Change" where
  "mkStorageChange a k v =
     \<lparr>change_kind = Storage, change_address = a, change_value = v, change_key = k\<rparr>"

section \<open>Accounts and the state\<close>

text \<open>
  Modelled from the spec: Account.h is not among the sources. An account has the fields of
  section 3 of the specification, read through the accessors that \<open>commit\<close> in State.h
  calls (\<open>nonce\<close>, \<open>balance\<close>, \<open>baseRoot\<close>, \<open>storageOverlay\<close>, \<open>codeHash\<close>, \<open>code\<close>,
  \<open>hasNewCode\<close>, \<open>isDirty\<close>, \<open>isAlive\<close>). The overlay is an unordered map; it is listed
  here in iteration order.
\<close>

record Account =
  acc_nonce :: u256
  acc_balance :: u256
  acc_baseRoot :: h256
  acc_codeHash :: h256
  acc_storageOverlay :: "(u256 \<times> u256) list"
  acc_code :: bytes
  acc_isDirty :: bool
  acc_isAlive :: bool
  acc_hasNewCode :: bool

text \<open>
  Modelled from the spec: State.cpp is not among the sources, State.h declares the members.
  \<open>m_cache\<close> is the account cache read through to the account trie (\<open>None\<close>: the address
  has no account); \<open>m_changeLog\<close> is the vector of changes, its back being the last element
  of the list; \<open>m_touched\<close> the touched addresses; \<open>m_storage\<close> stands for the storage
  tries of \<open>m_db\<close>, by root.
\<close>

record State =
  m_cache :: "Address \<rightharpoonup> Account"
  m_changeLog :: "Change list"
  m_touched :: "Address set"
  m_accountStartNonce :: u256
  m_storage :: "h256 \<Rightarrow> u256 \<Rightarrow> u256"

text \<open>Modelled from the spec: \<open>balance(a)\<close> is 0 when absent.\<close>

definition balance :: "State \<Rightarrow> Address \<Rightarrow> u256" where
  "balance s a = (case m_cache s a of None \<Rightarrow> 0 | Some acc \<Rightarrow> acc_balance acc)"

text \<open>Modelled from the spec: \<open>getNonce(a)\<close> is \<open>accountStartNonce\<close> when absent.\<close>

definition getNonce :: "State \<Rightarrow> Address \<Rightarrow> u256" where
  "getNonce s a = (case m_cache s a of None \<Rightarrow> m_accountStartNonce s | Some acc \<Rightarrow> acc_nonce acc)"

text \<open>Modelled from the spec: an address is in use when it has an account.\<close>

definition addressInUse :: "State \<Rightarrow> Address \<Rightarrow> bool" where
  "addressInUse s a = (m_cache s a \<noteq> None)"

text \<open>Modelled from the spec: true iff the account exists and its code hash is not the
  hash of the empty string.\<close>

definition addressHasCode :: "State \<Rightarrow> Address \<Rightarrow> bool" where
  "addressHasCode s a =
     (case m_cache s a of None \<Rightarrow> False | Some acc \<Rightarrow> acc_codeHash acc \<noteq> EmptySHA3)"

text \<open>Modelled from the spec: the code hash of an account, hash-of-empty when there is no
  code or no account.\<close>

definition codeHash :: "State \<Rightarrow> Address \<Rightarrow> h256" where
  "codeHash s a = (case m_cache s a of None \<Rightarrow> EmptySHA3 | Some acc \<Rightarrow> acc_codeHash acc)"

text \<open>Modelled from the spec: the code of an account, \<open>bytes()\<close> when there is no
  account.\<close>

definition code :: "State \<Rightarrow> Address \<Rightarrow> bytes" where
  "code s a = (case m_cache s a of None \<Rightarrow> [] | Some acc \<Rightarrow> acc_code acc)"

text \<open>Modelled from the spec: overlay, then the per-account trie, then 0.\<close>

definition storage :: "State \<Rightarrow> Address \<Rightarrow> u256 \<Rightarrow> u256" where
  "storage s a k =
     (case m_cache s a of
        None \<Rightarrow> 0
      | Some acc \<Rightarrow>
          (case map_of (acc_storageOverlay acc) k of
             Some v \<Rightarrow> v
           | None \<Rightarrow> m_storage s (acc_baseRoot acc) k))"

text \<open>Modelled from the spec: \<open>push\<close> appends an entry to the change log.\<close>

definition pushChange :: "Change \<Rightarrow> State \<Rightarrow> State" where
  "pushChange c s = s\<lparr>m_changeLog := m_changeLog s @ [c]\<rparr>"

text \<open>Modelled from the spec: a mutation of the cached account at an address; an address
  with no account is left alone.\<close>

definition updAccount :: "Address \<Rightarrow> (Account \<Rightarrow> Account) \<Rightarrow> State \<Rightarrow> State" where
  "updAccount a f s =
     (case m_cache s a of
        None \<Rightarrow> s
      | Some acc \<Rightarrow> s\<lparr>m_cache := (m_cache s)(a \<mapsto> f acc)\<rparr>)"

text \<open>Modelled from the spec: a fresh account, alive and dirty, with the storage root of the
  empty trie and the code hash of the empty string.\<close>

definition newAccount :: "u256 \<Rightarrow> u256 \<Rightarrow> Account" where
  "newAccount n b =
     \<lparr>acc_nonce = n, acc_balance = b, acc_baseRoot = EmptyTrie, acc_codeHash = EmptySHA3,
      acc_storageOverlay = [], acc_code = [], acc_isDirty = True, acc_isAlive = True,
      acc_hasNewCode = False\<rparr>"

text \<open>Modelled from the spec: \<open>createAccount\<close> enters the account into the cache and logs
  \<open>Create\<close>.\<close>

definition createAccount :: "Address \<Rightarrow> Account \<Rightarrow> State \<Rightarrow> State" where
  "createAccount a acc s = pushChange (mkChange Create a 0) (s\<lparr>m_cache := (m_cache s)(a \<mapsto> acc)\<rparr>)"

text \<open>Modelled from the spec: the operations that create the account if absent start from
  a fresh account with the start nonce and no balance.\<close>

definition ensureAccount :: "Address \<Rightarrow> State \<Rightarrow> State" where
  "ensureAccount a s =
     (if addressInUse s a then s else createAccount a (newAccount (m_accountStartNonce s) 0) s)"

text \<open>Modelled from the spec: \<open>touch\<close> inserts into the touched set and appends a \<open>Touch\<close>
  entry if the address was not touched already.\<close>

definition touch :: "Address \<Rightarrow> State \<Rightarrow> State" where
  "touch a s =
     (if a \<in> m_touched s then s
      else pushChange (mkChange Touch a 0) (s\<lparr>m_touched := insert a (m_touched s)\<rparr>))"

text \<open>Modelled from the spec: \<open>addBalance(a, v)\<close> creates the account if absent; \<open>v\<close> may be
  0 (touch only). The \<open>Balance\<close> entry holds the amount the balance was increased by.\<close>

definition addBalance :: "Address \<Rightarrow> u256 \<Rightarrow> State \<Rightarrow> State" where
  "addBalance a v s =
     (let s1 = touch a (ensureAccount a s);
          s2 = updAccount a (\<lambda>acc. acc\<lparr>acc_balance := acc_balance acc + v, acc_isDirty := True\<rparr>) s1
      in if v \<noteq> 0 then pushChange (mkChange Balance a v) s2 else s2)"

text \<open>Modelled from the spec and the comment of State.h: \<open>subBalance\<close> throws
  \<open>NotEnoughCash\<close> if the balance of the account is less than the amount to be subtracted
  (also in case the account does not exist). The result is the exception with the state as
  the throw leaves it, or the state after the call.\<close>

definition subBalance :: "Address \<Rightarrow> u256 \<Rightarrow> State \<Rightarrow> (Exception \<times> State) + State" where
  "subBalance a v s =
     (if balance s a < v then Inl (ExNotEnoughCash, s)
      else Inr (addBalance a (0 - v) s))"

text \<open>State.h: \<open>transferBalance\<close> is \<open>subBalance(_from, _value); addBalance(_to, _value);\<close>.\<close>

definition transferBalance :: "Address \<Rightarrow> Address \<Rightarrow> u256 \<Rightarrow> State \<Rightarrow> (Exception \<times> State) + State" where
  "transferBalance from to v s =
     (case subBalance from v s of
        Inl e \<Rightarrow> Inl e
      | Inr s1 \<Rightarrow> Inr (addBalance to v s1))"

text \<open>Modelled from the spec: \<open>incNonce\<close> creates the account if absent; the increment is
  always logged.\<close>

definition incNonce :: "Address \<Rightarrow> State \<Rightarrow> State" where
  "incNonce a s =
     pushChange (mkChange Nonce a 0)
       (updAccount a (\<lambda>acc. acc\<lparr>acc_nonce := acc_nonce acc + 1, acc_isDirty := True\<rparr>)
          (ensureAccount a s))"

text \<open>Modelled from the spec: \<open>setStorage\<close> logs the previous value and writes the overlay.\<close>

definition setStorage :: "Address \<Rightarrow> u256 \<Rightarrow> u256 \<Rightarrow> State \<Rightarrow> State" where
  "setStorage a k v s =
     updAccount a
       (\<lambda>acc. acc\<lparr>acc_storageOverlay := (k, v) # filter (\<lambda>p. fst p \<noteq> k) (acc_storageOverlay acc),
                  acc_isDirty := True\<rparr>)
       (pushChange (mkStorageChange a k (storage s a k)) s)"

text \<open>Modelled from the spec: \<open>setNewCode\<close> sets the code, marks \<open>hasNewCode\<close> and updates
  the code hash. \<open>sha3\<close> is Keccak-256, taken as a parameter.\<close>

definition setNewCode :: "(bytes \<Rightarrow> h256) \<Rightarrow> Address \<Rightarrow> bytes \<Rightarrow> State \<Rightarrow> State" where
  "setNewCode sha3 a c s =
     updAccount a
       (\<lambda>acc. acc\<lparr>acc_code := c, acc_codeHash := sha3 c, acc_hasNewCode := True,
                  acc_isDirty := True\<rparr>)
       (pushChange (mkChange NewCode a 0) s)"


text \<open>Modelled from the spec: a savepoint is the size of the change log.\<close>

definition savepoint :: "State \<Rightarrow> nat" where
  "savepoint s = length (m_changeLog s)"

text \<open>
  Modelled from the spec (section 4.1): the inverse of one entry, applied to the cache.
  The \<open>Change\<close> of State.h keeps no previous code, so undoing \<open>NewCode\<close> resets the account
  to no code.
\<close>

definition undo :: "Change \<Rightarrow> State \<Rightarrow> State" where
  "undo c s =
     (let a = change_address c in
      case change_kind c of
        Balance \<Rightarrow> updAccount a (\<lambda>acc. acc\<lparr>acc_balance := acc_balance acc - change_value c\<rparr>) s
      | Storage \<Rightarrow>
          updAccount a
            (\<lambda>acc. acc\<lparr>acc_storageOverlay :=
                        (change_key c, change_value c) #
                          filter (\<lambda>p. fst p \<noteq> change_key c) (acc_storageOverlay acc)\<rparr>) s
      | Nonce \<Rightarrow> updAccount a (\<lambda>acc. acc\<lparr>acc_nonce := acc_nonce acc - 1\<rparr>) s
      | Create \<Rightarrow> s\<lparr>m_cache := (m_cache s)(a := None)\<rparr>
      | NewCode \<Rightarrow>
          updAccount a
            (\<lambda>acc. acc\<lparr>acc_code := [], acc_codeHash := EmptySHA3, acc_hasNewCode := False\<rparr>) s
      | Touch \<Rightarrow> s\<lparr>m_touched := m_touched s - {a}\<rparr>)"

text \<open>Modelled from the spec: \<open>rollback\<close> pops entries until the length of the log equals
  the savepoint, undoing each popped entry. It stops on an empty log.\<close>

fun rollback_log :: "nat \<Rightarrow> Change list \<Rightarrow> State \<Rightarrow> State" where
  "rollback_log sp [] s = s\<lparr>m_changeLog := []\<rparr>"
| "rollback_log sp (c # older) s =
     (if sp = Suc (length older) then s\<lparr>m_changeLog := rev (c # older)\<rparr>
      else rollback_log sp older (undo c s))"

definition rollback :: "nat \<Rightarrow> State \<Rightarrow> State" where
  "rollback sp s = rollback_log sp (rev (m_changeLog s)) s"

section \<open>Executive.cpp: the data of a transaction frame\<close>

text \<open>
  Modelled from the spec: Transaction.h is not among the sources. A transaction carries the
  RLP fields of section 6; \<open>tx_type\<close> decides \<open>operator bool\<close> and \<open>isCreation\<close>;
  \<open>tx_sender\<close> is the result of \<open>sender()\<close>, \<open>None\<close> when the recovery from the signature
  throws.
\<close>

datatype TxType = NullTransaction | ContractCreation | MessageCall

record Transaction =
  tx_type :: TxType
  tx_nonce :: u256
  tx_gasPrice :: u256
  tx_gas :: u256
  tx_receiveAddress :: Address
  tx_value :: u256
  tx_data :: bytes
  tx_sender :: "Address option"

definition isCreation :: "Transaction \<Rightarrow> bool" where
  "isCreation t = (tx_type t = ContractCreation)"

definition tx_bool :: "Transaction \<Rightarrow> bool" where
  "tx_bool t = (tx_type t \<noteq> NullTransaction)"

text \<open>Modelled from the spec (section 7): the error taxonomy, and \<open>None\<close> for a frame
  that has not failed.\<close>

datatype TransactionException =
    TENone
  | Unknown
  | BlockGasLimitReached
  | OutOfGasBase
  | InvalidSignature
  | InvalidNonce
  | NotEnoughCash
  | OutOfGas
  | BadJumpDestination
  | BadInstruction
  | StackUnderflow
  | OutOfStack
  | Revert
  | StaticModeViolation

text \<open>Modelled from the spec (section 4.6.5): the exceptions a VM run raises.\<close>

datatype VMException =
    VMOutOfGas
  | VMBadJumpDestination
  | VMBadInstruction
  | VMStackUnderflow
  | VMOutOfStack
  | VMRevert
  | VMStaticModeViolation

text \<open>Modelled from the spec: each VM exception is mapped to the corresponding
  \<open>TransactionException\<close>.\<close>

fun toTransactionException :: "VMException \<Rightarrow> TransactionException" where
  "toTransactionException VMOutOfGas = OutOfGas"
| "toTransactionException VMBadJumpDestination = BadJumpDestination"
| "toTransactionException VMBadInstruction = BadInstruction"
| "toTransactionException VMStackUnderflow = StackUnderflow"
| "toTransactionException VMOutOfStack = OutOfStack"
| "toTransactionException VMRevert = Revert"
| "toTransactionException VMStaticModeViolation = StaticModeViolation"

text \<open>Modelled from the spec (section 4.4): the fields of \<open>EnvInfo\<close> that the executive
  reads.\<close>

record EnvInfo =
  env_number :: u256
  env_author :: Address
  env_gasLimit :: u256
  env_gasUsed :: u256

text \<open>Modelled from the spec (section 6): the fields of the schedule that the executive
  reads; the three amounts are \<open>unsigned\<close>.\<close>

record EVMSchedule =
  exceptionalFailedCodeDeposit :: bool
  maxCodeSize :: "32 word"
  createDataGas :: "32 word"
  suicideRefundGas :: "32 word"

type_synonym LogEntry = "Address \<times> h256 list \<times> bytes"

text \<open>Modelled from the spec (section 4.5): the sub-state of a frame. \<open>suicides\<close> is a
  \<open>std::set\<close>, listed in iteration order; its \<open>size()\<close> is the length of the list.\<close>

record SubState =
  suicides :: "Address list"
  logs :: "LogEntry list"
  refunds :: u256

definition emptySubState :: SubState where
  "emptySubState = \<lparr>suicides = [], logs = [], refunds = 0\<rparr>"

definition sub_clear :: "SubState \<Rightarrow> SubState" where
  "sub_clear sub = sub\<lparr>suicides := [], logs := [], refunds := 0\<rparr>"

text \<open>Modelled from the spec (section 4.5): the frame's host interface, as
  \<open>make_shared<ExtVM>\<close> fills it. The state it refers to is \<open>m_s\<close> of the executive.\<close>

record ExtVM =
  myAddress :: Address
  caller :: Address
  origin :: Address
  ext_value :: u256
  ext_gasPrice :: u256
  ext_data :: bytes
  ext_code :: bytes
  ext_codeHash :: h256
  ext_depth :: nat
  sub :: SubState

datatype CodeDeposit = CodeDepositNone | CodeDepositFailed | CodeDepositSuccess

record ExecutionResult =
  res_gasUsed :: u256
  res_excepted :: TransactionException
  res_newAddress :: Address
  res_output :: bytes
  res_codeDeposit :: CodeDeposit
  res_gasRefunded :: u256
  res_depositSize :: "64 word"
  res_gasForDeposit :: u256

text \<open>Modelled from the spec (section 6): the chain oracle. \<open>deleteAddresses\<close> is the set
  the call dispatch inserts into.\<close>

record SealEngineFace =
  evmSchedule :: "EnvInfo \<Rightarrow> EVMSchedule"
  isPrecompiled :: "Address \<Rightarrow> u256 \<Rightarrow> bool"
  costOfPrecompiled :: "Address \<Rightarrow> bytes \<Rightarrow> u256 \<Rightarrow> bigint"
  executePrecompiled :: "Address \<Rightarrow> bytes \<Rightarrow> u256 \<Rightarrow> bool \<times> bytes"
  EIP158ForkBlock :: u256
  deleteAddresses :: "Address set"

record CallParameters =
  senderAddress :: Address
  codeAddress :: Address
  receiveAddress :: Address
  valueTransfer :: u256
  apparentValue :: u256
  gas :: u256
  data :: bytes

text \<open>The members of \<open>Executive\<close> that Executive.cpp reads and writes. \<open>m_ext\<close> and
  \<open>m_res\<close> are pointers: \<open>None\<close> is the null pointer.\<close>

record Executive =
  m_s :: State
  m_envInfo :: EnvInfo
  m_ext :: "ExtVM option"
  m_res :: "ExecutionResult option"
  m_output :: bytes
  m_depth :: nat
  m_excepted :: TransactionException
  m_baseGasRequired :: bigint
  m_gas :: u256
  m_refunded :: u256
  m_t :: Transaction
  m_logs :: "LogEntry list"
  m_gasCost :: u256
  m_sealEngine :: SealEngineFace
  m_isCreation :: bool
  m_newAddress :: Address
  m_savepoint :: nat


subsection \<open>\<open>Executive::initialize\<close>\<close>

text \<open>
  \<open>baseGasRequired\<close> is \<open>Transaction::baseGasRequired\<close>, the intrinsic gas, taken as a
  parameter. The result is the exception thrown, if any, with the executive as the call
  leaves it.
\<close>

definition initialize ::
  "(Transaction \<Rightarrow> EVMSchedule \<Rightarrow> bigint) \<Rightarrow> Transaction \<Rightarrow> Executive \<Rightarrow> Exception option \<times> Executive"
where
  "initialize baseGasRequired transaction ex0 =
     (let ex = ex0\<lparr>m_t := transaction\<rparr>;
          startGasUsed = env_gasUsed (m_envInfo ex)
      in
      if uint startGasUsed + uint (tx_gas (m_t ex)) > uint (env_gasLimit (m_envInfo ex)) then
        (Some ExBlockGasLimitReached, ex\<lparr>m_excepted := BlockGasLimitReached\<rparr>)
      else
        let ex = ex\<lparr>m_baseGasRequired :=
                      baseGasRequired (m_t ex) (evmSchedule (m_sealEngine ex) (m_envInfo ex))\<rparr>
        in
        if m_baseGasRequired ex > uint (tx_gas (m_t ex)) then
          (Some ExOutOfGasBase, ex\<lparr>m_excepted := OutOfGasBase\<rparr>)
        else
          (case tx_sender (m_t ex) of
             None \<Rightarrow> (Some ExInvalidSignature, ex\<lparr>m_excepted := InvalidSignature\<rparr>)
           | Some sender \<Rightarrow>
               let nonceReq = getNonce (m_s ex) sender in
               if tx_nonce (m_t ex) \<noteq> nonceReq then
                 (Some ExInvalidNonce, ex\<lparr>m_excepted := InvalidNonce\<rparr>)
               else
                 let gasCost = uint (tx_gas (m_t ex)) * uint (tx_gasPrice (m_t ex));
                     totalCost = uint (tx_value (m_t ex)) + gasCost
                 in
                 if uint (balance (m_s ex) sender) < totalCost then
                   (Some ExNotEnoughCash, ex\<lparr>m_excepted := NotEnoughCash\<rparr>)
                 else (None, ex\<lparr>m_gasCost := word_of_int gasCost\<rparr>)))"

subsection \<open>\<open>Executive::revert\<close>\<close>

definition revert :: "Executive \<Rightarrow> Executive" where
  "revert ex =
     ex\<lparr>m_ext := map_option (\<lambda>e. e\<lparr>sub := sub_clear (sub e)\<rparr>) (m_ext ex),
        m_newAddress := 0,
        m_s := rollback (m_savepoint ex) (m_s ex)\<rparr>"

subsection \<open>\<open>Executive::call\<close>\<close>

text \<open>\<open>make_shared<ExtVM>\<close>: a frame with an empty sub-state.\<close>

definition mkExtVM ::
  "Address \<Rightarrow> Address \<Rightarrow> Address \<Rightarrow> u256 \<Rightarrow> u256 \<Rightarrow> bytes \<Rightarrow> bytes \<Rightarrow> h256 \<Rightarrow> nat \<Rightarrow> ExtVM"
where
  "mkExtVM my cal orig v gp d c ch dep =
     \<lparr>myAddress = my, caller = cal, origin = orig, ext_value = v, ext_gasPrice = gp,
      ext_data = d, ext_code = c, ext_codeHash = ch, ext_depth = dep, sub = emptySubState\<rparr>"

text \<open>The end of \<open>call\<close>, after the precompile branch: the \<open>deleteAddresses\<close> note, the
  transfer (which may throw) and the return value \<open>!m_ext\<close>.\<close>

definition call_transfer ::
  "CallParameters \<Rightarrow> Executive \<Rightarrow> (Exception \<times> Executive) + (bool \<times> Executive)"
where
  "call_transfer p ex =
     (let ex1 =
            (if \<not> addressInUse (m_s ex) (receiveAddress p) then
               ex\<lparr>m_sealEngine := (m_sealEngine ex)
                    \<lparr>deleteAddresses := insert (receiveAddress p) (deleteAddresses (m_sealEngine ex))\<rparr>\<rparr>
             else ex)
      in case transferBalance (senderAddress p) (receiveAddress p) (valueTransfer p) (m_s ex1) of
           Inl (e, s) \<Rightarrow> Inl (e, ex1\<lparr>m_s := s\<rparr>)
         | Inr s \<Rightarrow> Inr (m_ext ex1 = None, ex1\<lparr>m_s := s\<rparr>))"

definition call ::
  "CallParameters \<Rightarrow> u256 \<Rightarrow> Address \<Rightarrow> Executive \<Rightarrow> (Exception \<times> Executive) + (bool \<times> Executive)"
where
  "call p gasPrice orig ex0 =
     (let ex1 = (if tx_bool (m_t ex0) then ex0\<lparr>m_s := incNonce (senderAddress p) (m_s ex0)\<rparr> else ex0);
          ex2 = ex1\<lparr>m_savepoint := savepoint (m_s ex1)\<rparr>;
          se = m_sealEngine ex2;
          number = env_number (m_envInfo ex2)
      in
      if isPrecompiled se (codeAddress p) number then
        let g = costOfPrecompiled se (codeAddress p) (data p) number in
        if uint (gas p) < g then
          let ex3 = ex2\<lparr>m_excepted := OutOfGasBase\<rparr>;
              ex4 = (if number \<ge> EIP158ForkBlock se
                     then ex3\<lparr>m_s := addBalance (codeAddress p) 0 (m_s ex3)\<rparr> else ex3)
          in Inr (True, ex4)
        else
          let ex3 = ex2\<lparr>m_gas := word_of_int (uint (gas p) - g)\<rparr>;
              (success, output) = executePrecompiled se (codeAddress p) (data p) number;
              ex4 = (if \<not> success then ex3\<lparr>m_gas := 0, m_excepted := OutOfGas\<rparr> else ex3);
              ex5 = ex4\<lparr>m_output := output\<rparr>
          in call_transfer p ex5
      else
        let ex3 = ex2\<lparr>m_gas := gas p\<rparr>;
            ex4 = (if addressHasCode (m_s ex3) (codeAddress p) then
                     ex3\<lparr>m_ext := Some (mkExtVM (receiveAddress p) (senderAddress p) orig
                                         (apparentValue p) gasPrice (data p)
                                         (code (m_s ex3) (codeAddress p))
                                         (codeHash (m_s ex3) (codeAddress p)) (m_depth ex3))\<rparr>
                   else ex3)
        in call_transfer p ex4)"

text \<open>The overload of \<open>call\<close> that builds the \<open>CallParameters\<close>.\<close>

definition call_simple ::
  "Address \<Rightarrow> Address \<Rightarrow> u256 \<Rightarrow> u256 \<Rightarrow> bytes \<Rightarrow> u256 \<Rightarrow> Executive \<Rightarrow>
     (Exception \<times> Executive) + (bool \<times> Executive)"
where
  "call_simple recv sender v gasPrice d g ex =
     call \<lparr>senderAddress = sender, codeAddress = recv, receiveAddress = recv,
           valueTransfer = v, apparentValue = v, gas = g, data = d\<rparr> gasPrice sender ex"

subsection \<open>\<open>Executive::create\<close>\<close>

text \<open>\<open>sha3\<close> is Keccak-256 and \<open>rlpList\<close> the RLP encoding of the pair (sender, nonce);
  both are taken as parameters.\<close>

definition create ::
  "(bytes \<Rightarrow> h256) \<Rightarrow> (Address \<Rightarrow> u256 \<Rightarrow> bytes) \<Rightarrow>
     Address \<Rightarrow> u256 \<Rightarrow> u256 \<Rightarrow> u256 \<Rightarrow> bytes \<Rightarrow> Address \<Rightarrow> Executive \<Rightarrow>
     (Exception \<times> Executive) + (bool \<times> Executive)"
where
  "create sha3 rlpList sender endowment gasPrice g init orig ex0 =
     (let nonce = getNonce (m_s ex0) sender;
          ex1 = ex0\<lparr>m_s := incNonce sender (m_s ex0)\<rparr>;
          ex2 = ex1\<lparr>m_savepoint := savepoint (m_s ex1)\<rparr>;
          ex3 = ex2\<lparr>m_isCreation := True\<rparr>;
          ex4 = ex3\<lparr>m_newAddress := right160 (sha3 (rlpList sender nonce))\<rparr>;
          ex5 = ex4\<lparr>m_gas := g\<rparr>
      in case transferBalance sender (m_newAddress ex5) endowment (m_s ex5) of
           Inl (e, s) \<Rightarrow> Inl (e, ex5\<lparr>m_s := s\<rparr>)
         | Inr s \<Rightarrow>
             let ex6 = ex5\<lparr>m_s := s\<rparr>;
                 ex7 = (if env_number (m_envInfo ex6) \<ge> EIP158ForkBlock (m_sealEngine ex6)
                        then ex6\<lparr>m_s := incNonce (m_newAddress ex6) (m_s ex6)\<rparr> else ex6);
                 ex8 = (if init \<noteq> [] then
                          ex7\<lparr>m_ext := Some (mkExtVM (m_newAddress ex7) sender orig endowment gasPrice
                                              [] init (sha3 init) (m_depth ex7))\<rparr>
                        else if addressHasCode (m_s ex7) (m_newAddress ex7) then
                          ex7\<lparr>m_s := setNewCode sha3 (m_newAddress ex7) [] (m_s ex7)\<rparr>
                        else ex7)
             in Inr (m_ext ex8 = None, ex8))"

subsection \<open>\<open>Executive::execute\<close>\<close>

definition execute ::
  "(bytes \<Rightarrow> h256) \<Rightarrow> (Address \<Rightarrow> u256 \<Rightarrow> bytes) \<Rightarrow> Executive \<Rightarrow>
     (Exception \<times> Executive) + (bool \<times> Executive)"
where
  "execute sha3 rlpList ex =
     (case tx_sender (m_t ex) of
        None \<Rightarrow> Inl (ExInvalidSignature, ex)
      | Some sender \<Rightarrow>
          (case subBalance sender (m_gasCost ex) (m_s ex) of
             Inl (e, s) \<Rightarrow> Inl (e, ex\<lparr>m_s := s\<rparr>)
           | Inr s \<Rightarrow>
               let ex1 = ex\<lparr>m_s := s\<rparr>;
                   t = m_t ex1
               in if isCreation t then
                    create sha3 rlpList sender (tx_value t) (tx_gasPrice t)
                      (tx_gas t - word_of_int (m_baseGasRequired ex1)) (tx_data t) sender ex1
                  else
                    call_simple (tx_receiveAddress t) sender (tx_value t) (tx_gasPrice t) (tx_data t)
                      (tx_gas t - word_of_int (m_baseGasRequired ex1)) ex1))"

subsection \<open>\<open>Executive::go\<close>\<close>

text \<open>
  The virtual machine is taken as a parameter. A run gets the gas, the frame and the state,
  and leaves an outcome: it returns its output, throws a \<open>VMException\<close>, or throws another
  exception, on which \<open>go\<close> calls \<open>exit(1)\<close>. With the outcome come the gas (\<open>exec\<close>
  changes \<open>m_gas\<close> in place), the state and the frame's sub-state as the run leaves them.
\<close>

datatype VMOutcome = VMReturn bytes | VMThrow VMException | VMFatal

type_synonym VM = "u256 \<Rightarrow> ExtVM \<Rightarrow> State \<Rightarrow> VMOutcome \<times> u256 \<times> State \<times> SubState"

text \<open>The handler \<open>catch (VMException const& _e)\<close>.\<close>

definition catchVMException :: "VMException \<Rightarrow> Executive \<Rightarrow> Executive" where
  "catchVMException e ex = revert (ex\<lparr>m_gas := 0, m_excepted := toTransactionException e\<rparr>)"

text \<open>\<open>size()\<close> of a byte vector, a \<open>size_t\<close>.\<close>

definition size_t :: "nat \<Rightarrow> 64 word" where
  "size_t n = of_nat n"

text \<open>The creation branch after \<open>exec\<close> has returned \<open>out\<close>. The schedule of the frame is
  the seal engine's schedule for the block. The products are computed in \<open>size_t\<close>.\<close>

definition go_deposit :: "(bytes \<Rightarrow> h256) \<Rightarrow> ExtVM \<Rightarrow> bytes \<Rightarrow> Executive \<Rightarrow> Executive" where
  "go_deposit sha3 ext out0 ex0 =
     (let sched = evmSchedule (m_sealEngine ex0) (m_envInfo ex0);
          ex1 = ex0\<lparr>m_res := map_option
                    (\<lambda>r. r\<lparr>res_gasForDeposit := m_gas ex0, res_depositSize := size_t (length out0)\<rparr>)
                    (m_res ex0)\<rparr>
      in
      if size_t (length out0) > ucast (maxCodeSize sched) then catchVMException VMOutOfGas ex1
      else if uint (size_t (length out0) * ucast (createDataGas sched)) \<le> uint (m_gas ex1) then
        let ex2 = ex1\<lparr>m_res := map_option (\<lambda>r. r\<lparr>res_codeDeposit := CodeDepositSuccess\<rparr>) (m_res ex1)\<rparr>;
            ex3 = ex2\<lparr>m_gas := m_gas ex2 - ucast (size_t (length out0) * ucast (createDataGas sched))\<rparr>;
            ex4 = ex3\<lparr>m_res := map_option (\<lambda>r. r\<lparr>res_output := out0\<rparr>) (m_res ex3)\<rparr>
        in ex4\<lparr>m_s := setNewCode sha3 (myAddress ext) out0 (m_s ex4)\<rparr>
      else if exceptionalFailedCodeDeposit sched then catchVMException VMOutOfGas ex1
      else
        let ex2 = ex1\<lparr>m_res := map_option (\<lambda>r. r\<lparr>res_codeDeposit := CodeDepositFailed\<rparr>) (m_res ex1)\<rparr>;
            out = [];
            ex3 = ex2\<lparr>m_res := map_option (\<lambda>r. r\<lparr>res_output := out\<rparr>) (m_res ex2)\<rparr>
        in ex3\<lparr>m_s := setNewCode sha3 (myAddress ext) out (m_s ex3)\<rparr>)"

text \<open>\<open>VMFactory_create True\<close> is \<open>VMFactory::create(VMKind::Interpreter)\<close>, chosen when a
  trace callback is given (\<open>onOp\<close>), \<open>VMFactory_create False\<close> is \<open>VMFactory::create()\<close>.
  The result is \<open>None\<close> when the process exits.\<close>

definition go :: "(bytes \<Rightarrow> h256) \<Rightarrow> (bool \<Rightarrow> VM) \<Rightarrow> bool \<Rightarrow> Executive \<Rightarrow> (bool \<times> Executive) option" where
  "go sha3 VMFactory_create onOp ex =
     (case m_ext ex of
        None \<Rightarrow> Some (True, ex)
      | Some ext \<Rightarrow>
          (let vm = VMFactory_create onOp;
               (outcome, gas', s', sub') = vm (m_gas ex) ext (m_s ex);
               ext' = ext\<lparr>sub := sub'\<rparr>;
               ex1 = ex\<lparr>m_gas := gas', m_s := s', m_ext := Some ext'\<rparr>
           in (case outcome of
                 VMFatal \<Rightarrow> None
               | VMThrow e \<Rightarrow> Some (True, catchVMException e ex1)
               | VMReturn out \<Rightarrow>
                   (if m_isCreation ex1 then Some (True, go_deposit sha3 ext' out ex1)
                    else
                      Some (True, ex1\<lparr>m_output := out,
                                      m_res := map_option (\<lambda>r. r\<lparr>res_output := out\<rparr>) (m_res ex1)\<rparr>)))))"

subsection \<open>\<open>Executive::finalize\<close>\<close>


section \<open>State.h: \<open>commit\<close>\<close>

text \<open>
  Modelled from the spec (section 6): RLP.h, TrieDB.h, OverlayDB.h and CodeSizeCache.h are
  not among the sources. A trie is taken as the key/value map it holds. The RLP encoder and
  the storage tries of the database are parameters: \<open>rlp\<close> encodes a storage value,
  \<open>rlpStream\<close> is \<open>out()\<close> of an \<open>RLPStream\<close> of the given items, \<open>storageAt r\<close> is the
  content of the storage trie with root \<open>r\<close>, as \<open>SecureTrieDB<h256, DB>(db, r)\<close> opens it,
  and \<open>trieRoot\<close> is \<open>root()\<close> of a trie with the given content.
\<close>

datatype RLPItem = RLPu256 u256 | RLPh256 h256

record TrieOracle =
  rlp :: "u256 \<Rightarrow> bytes"
  rlpStream :: "RLPItem list \<Rightarrow> bytes"
  storageAt :: "h256 \<Rightarrow> (h256 \<rightharpoonup> bytes)"
  trieRoot :: "(h256 \<rightharpoonup> bytes) \<Rightarrow> h256"

text \<open>What \<open>commit\<close> writes to: the state trie \<open>_state\<close>, the values inserted into its
  database \<open>_state.db()\<close> by key, and the process-wide code-size cache.\<close>

record CommitTarget =
  ct_state :: "Address \<rightharpoonup> bytes"
  ct_db :: "h256 \<rightharpoonup> bytes"
  ct_codeSizes :: "h256 \<rightharpoonup> 64 word"

text \<open>The loop over \<open>storageOverlay()\<close>: a non-zero value is inserted RLP-encoded, a zero
  value removes the key.\<close>

fun commitStorage :: "TrieOracle \<Rightarrow> (u256 \<times> u256) list \<Rightarrow> (h256 \<rightharpoonup> bytes) \<Rightarrow> (h256 \<rightharpoonup> bytes)" where
  "commitStorage orc [] storageDB = storageDB"
| "commitStorage orc (j # rest) storageDB =
     commitStorage orc rest
       (if snd j \<noteq> 0 then storageDB(fst j \<mapsto> rlp orc (snd j)) else storageDB(fst j := None))"

text \<open>The storage root appended to the stream; \<open>None\<close> when the \<open>assert\<close> on it fails.\<close>

definition commitStorageRoot :: "TrieOracle \<Rightarrow> Account \<Rightarrow> h256 option" where
  "commitStorageRoot orc acc =
     (if acc_storageOverlay acc = [] then
        (if acc_baseRoot acc \<noteq> 0 then Some (acc_baseRoot acc) else None)
      else
        let storageDB = commitStorage orc (acc_storageOverlay acc) (storageAt orc (acc_baseRoot acc))
        in if trieRoot orc storageDB \<noteq> 0 then Some (trieRoot orc storageDB) else None)"

text \<open>The body of the loop of \<open>commit\<close> for one dirty account \<open>i\<close>, with \<open>a = i.first\<close> and
  \<open>acc = i.second\<close>.\<close>

definition commitAccount :: "TrieOracle \<Rightarrow> Address \<Rightarrow> Account \<Rightarrow> CommitTarget \<Rightarrow> CommitTarget option" where
  "commitAccount orc a acc st =
     (if \<not> acc_isAlive acc then Some (st\<lparr>ct_state := (ct_state st)(a := None)\<rparr>)
      else
        (case commitStorageRoot orc acc of
           None \<Rightarrow> None
         | Some root \<Rightarrow>
             let s = [RLPu256 (acc_nonce acc), RLPu256 (acc_balance acc), RLPh256 root];
                 (st1, s1) =
                   (if acc_hasNewCode acc then
                      let ch = acc_codeHash acc in
                      (st\<lparr>ct_codeSizes := (ct_codeSizes st)(ch \<mapsto> size_t (length (acc_code acc))),
                          ct_db := (ct_db st)(ch \<mapsto> acc_code acc)\<rparr>,
                       s @ [RLPh256 ch])
                    else (st, s @ [RLPh256 (acc_codeHash acc)]))
             in Some (st1\<lparr>ct_state := (ct_state st1)(a \<mapsto> rlpStream orc s1)\<rparr>)))"

text \<open>The loop over the cache, an unordered map listed in iteration order, with the set
  \<open>ret\<close> of the addresses committed so far.\<close>

fun commitLoop ::
  "TrieOracle \<Rightarrow> (Address \<times> Account) list \<Rightarrow> CommitTarget \<times> Address set \<Rightarrow>
     (CommitTarget \<times> Address set) option"
where
  "commitLoop orc [] r = Some r"
| "commitLoop orc (i # rest) (st, ret) =
     (if acc_isDirty (snd i) then
        (case commitAccount orc (fst i) (snd i) st of
           None \<Rightarrow> None
         | Some st' \<Rightarrow> commitLoop orc rest (st', insert (fst i) ret))
      else commitLoop orc rest (st, ret))"

definition commit ::
  "TrieOracle \<Rightarrow> (Address \<times> Account) list \<Rightarrow> CommitTarget \<Rightarrow> (CommitTarget \<times> Address set) option"
where
  "commit orc cache st = commitLoop orc cache (st, {})"

text \<open>The value that \<open>commit\<close> stores for an alive account, given its storage root.\<close>

definition accountRLP :: "TrieOracle \<Rightarrow> Account \<Rightarrow> h256 \<Rightarrow> bytes" where
  "accountRLP orc acc root =
     rlpStream orc [RLPu256 (acc_nonce acc), RLPu256 (acc_balance acc), RLPh256 root,
                    RLPh256 (acc_codeHash acc)]"

text \<open>The code hashes of the accounts with new code are consistent in a cache when equal
  hashes come with equal code.\<close>

definition codeConsistent :: "(Address \<times> Account) list \<Rightarrow> bool" where
  "codeConsistent cache =
     (\<forall>i \<in> set cache. \<forall>j \<in> set cache.
        acc_hasNewCode (snd i) \<and> acc_hasNewCode (snd j) \<and> acc_codeHash (snd i) = acc_codeHash (snd j)
          \<longrightarrow> acc_code (snd i) = acc_code (snd j))"

section \<open>What a frame does to the state\<close>

text \<open>
  Modelled from the spec (sections 2 and 4.5): ExtVM.cpp and the VM are not among the
  sources. The VM and its nested frames act on the state through its public operations
  only, each of which goes through the change log. A run is described by the list of the operations it performs; \<open>OpFrame ops failed\<close> is a nested
  frame, which takes a savepoint, performs \<open>ops\<close> and, if it fails, rolls back to its
  savepoint. An operation that throws leaves the state as the throw leaves it.
\<close>

datatype StateOp =
    OpAddBalance Address u256
  | OpSubBalance Address u256
  | OpTransferBalance Address Address u256
  | OpIncNonce Address
  | OpSetStorage Address u256 u256
  | OpSetNewCode Address bytes
  | OpFrame "StateOp list" bool

fun stateOf :: "(Exception \<times> State) + State \<Rightarrow> State" where
  "stateOf (Inl (e, s)) = s"
| "stateOf (Inr s) = s"

fun runOp :: "(bytes \<Rightarrow> h256) \<Rightarrow> StateOp \<Rightarrow> State \<Rightarrow> State" where
  "runOp sha3 (OpAddBalance a v) s = addBalance a v s"
| "runOp sha3 (OpSubBalance a v) s = stateOf (subBalance a v s)"
| "runOp sha3 (OpTransferBalance a b v) s = stateOf (transferBalance a b v s)"
| "runOp sha3 (OpIncNonce a) s = incNonce a s"
| "runOp sha3 (OpSetStorage a k v) s = setStorage a k v s"
| "runOp sha3 (OpSetNewCode a c) s = setNewCode sha3 a c s"
| "runOp sha3 (OpFrame ops failed) s =
     (let sp = savepoint s;
          s' = fold (runOp sha3) ops s
      in if failed then rollback sp s' else s')"

definition runOps :: "(bytes \<Rightarrow> h256) \<Rightarrow> StateOp list \<Rightarrow> State \<Rightarrow> State" where
  "runOps sha3 ops s = fold (runOp sha3) ops s"

text \<open>The executive as a dispatch leaves it, whether it returns or throws.\<close>

fun executiveOf :: "(Exception \<times> Executive) + (bool \<times> Executive) \<Rightarrow> Executive" where
  "executiveOf (Inl (e, ex)) = ex"
| "executiveOf (Inr (b, ex)) = ex"

text \<open>The nonce and the balance of every account, the part of the state that the
  properties of rollback below are about, and the inverse of a change on it.\<close>

definition view :: "State \<Rightarrow> Address \<rightharpoonup> u256 \<times> u256" where
  "view s a = map_option (\<lambda>acc. (acc_nonce acc, acc_balance acc)) (m_cache s a)"

definition undoView :: "Change \<Rightarrow> (Address \<rightharpoonup> u256 \<times> u256) \<Rightarrow> (Address \<rightharpoonup> u256 \<times> u256)" where
  "undoView c v =
     (let a = change_address c in
      case change_kind c of
        Balance \<Rightarrow> (case v a of None \<Rightarrow> v | Some (n, b) \<Rightarrow> v(a \<mapsto> (n, b - change_value c)))
      | Nonce \<Rightarrow> (case v a of None \<Rightarrow> v | Some (n, b) \<Rightarrow> v(a \<mapsto> (n - 1, b)))
      | Create \<Rightarrow> v(a := None)
      | Storage \<Rightarrow> v
      | NewCode \<Rightarrow> v
      | Touch \<Rightarrow> v)"

text \<open>\<open>extends s0 s\<close>: the log of \<open>s\<close> is the log of \<open>s0\<close> with entries appended, and undoing
  these entries, last first, leads from the nonces and balances of \<open>s\<close> to those of
  \<open>s0\<close>.\<close>

definition extends :: "State \<Rightarrow> State \<Rightarrow> bool" where
  "extends s0 s =
     (\<exists>ext. m_changeLog s = m_changeLog s0 @ ext \<and> fold undoView (rev ext) (view s) = view s0)"

section \<open>Example values\<close>

text \<open>The setting of the scenarios of the specification: account \<open>0xA\<close> holds 1000000 wei
  and has nonce 5, the gas price is 1, and address 3 is a precompiled contract of cost 600.\<close>

definition exampleState :: State where
  "exampleState =
     \<lparr>m_cache = [0xA \<mapsto> newAccount 5 1000000], m_changeLog = [], m_touched = {},
      m_accountStartNonce = 0, m_storage = (\<lambda>r k. 0)\<rparr>"

definition exampleEnvInfo :: EnvInfo where
  "exampleEnvInfo = \<lparr>env_number = 10, env_author = 0xC0, env_gasLimit = 1000000, env_gasUsed = 0\<rparr>"

definition exampleSchedule :: EVMSchedule where
  "exampleSchedule =
     \<lparr>exceptionalFailedCodeDeposit = False, maxCodeSize = 0x6000, createDataGas = 200,
      suicideRefundGas = 24000\<rparr>"

definition exampleSealEngine :: SealEngineFace where
  "exampleSealEngine =
     \<lparr>evmSchedule = (\<lambda>env. exampleSchedule),
      isPrecompiled = (\<lambda>a n. a = 3),
      costOfPrecompiled = (\<lambda>a d n. 600),
      executePrecompiled = (\<lambda>a d n. (True, [])),
      EIP158ForkBlock = 7,
      deleteAddresses = {}\<rparr>"

definition exampleTransaction :: Transaction where
  "exampleTransaction =
     \<lparr>tx_type = MessageCall, tx_nonce = 5, tx_gasPrice = 1, tx_gas = 21000,
      tx_receiveAddress = 0xB, tx_value = 1000, tx_data = [], tx_sender = Some 0xA\<rparr>"

definition nullTransaction :: Transaction where
  "nullTransaction =
     \<lparr>tx_type = NullTransaction, tx_nonce = 0, tx_gasPrice = 0, tx_gas = 0,
      tx_receiveAddress = 0, tx_value = 0, tx_data = [], tx_sender = None\<rparr>"

definition exampleExecutive :: Executive where
  "exampleExecutive =
     \<lparr>m_s = exampleState, m_envInfo = exampleEnvInfo, m_ext = None, m_res = None,
      m_output = [], m_depth = 0, m_excepted = TENone, m_baseGasRequired = 0, m_gas = 0,
      m_refunded = 0, m_t = nullTransaction, m_logs = [], m_gasCost = 0,
      m_sealEngine = exampleSealEngine, m_isCreation = False, m_newAddress = 0,
      m_savepoint = 0\<rparr>"

text \<open>An intrinsic gas of 21000 for every transaction.\<close>

definition exampleBaseGas :: "Transaction \<Rightarrow> EVMSchedule \<Rightarrow> bigint" where
  "exampleBaseGas t sched = 21000"

text \<open>A stand-in for Keccak-256 and for the RLP encoding of (sender, nonce) in the
  examples: the digest of a non-empty byte string is its length.\<close>

definition exampleSha3 :: "bytes \<Rightarrow> h256" where
  "exampleSha3 b = (if b = [] then EmptySHA3 else of_nat (length b))"

definition exampleRlpList :: "Address \<Rightarrow> u256 \<Rightarrow> bytes" where
  "exampleRlpList a n = replicate (unat n) 0"

text \<open>A call frame at \<open>0xB\<close>, called by \<open>0xA\<close>, with 100 gas, and the same frame as a
  creation frame with an execution result attached.\<close>

definition exampleFrame :: ExtVM where
  "exampleFrame = mkExtVM 0xB 0xA 0xA 0 1 [] [0x60] 1 0"

definition exampleFrameExecutive :: Executive where
  "exampleFrameExecutive =
     exampleExecutive\<lparr>m_ext := Some exampleFrame, m_gas := 100, m_t := exampleTransaction\<rparr>"

definition exampleResult :: ExecutionResult where
  "exampleResult =
     \<lparr>res_gasUsed = 0, res_excepted = TENone, res_newAddress = 0, res_output = [],
      res_codeDeposit = CodeDepositNone, res_gasRefunded = 0, res_depositSize = 0,
      res_gasForDeposit = 0\<rparr>"

definition exampleCreateExecutive :: Executive where
  "exampleCreateExecutive =
     exampleFrameExecutive\<lparr>m_isCreation := True, m_res := Some exampleResult\<rparr>"

text \<open>A VM that bumps the nonce of the frame's account and then reverts with 7 gas left,
  and a VM that returns the three bytes 1, 2, 3 with the gas \<open>g\<close> left.\<close>

definition exampleRevertVM :: VM where
  "exampleRevertVM g ext s = (VMThrow VMRevert, 7, incNonce (myAddress ext) s, sub ext)"

definition exampleReturnVM :: "u256 \<Rightarrow> VM" where
  "exampleReturnVM left g ext s = (VMReturn [1, 2, 3], left, s, sub ext)"

definition exampleVMFactory :: "VM \<Rightarrow> bool \<Rightarrow> VM" where
  "exampleVMFactory vm onOp = vm"


text \<open>The executive after \<open>initialize\<close> has accepted the example transaction, and the
  operations of a frame on the state.\<close>

definition exampleInitialised :: Executive where
  "exampleInitialised =
     exampleExecutive\<lparr>m_t := exampleTransaction, m_baseGasRequired := 21000, m_gasCost := 21000\<rparr>"

definition exampleOps :: "StateOp list" where
  "exampleOps =
     [OpAddBalance 0xB 5, OpSetStorage 0xB 7 42, OpFrame [OpIncNonce 0xB] True,
      OpTransferBalance 0xA 0xB 30, OpIncNonce 0xA]"

text \<open>A cache of four accounts for \<open>commit\<close>: \<open>0xA\<close> dirty with no overlay, \<open>0xB\<close> dirty
  and not alive, \<open>0xC\<close> dirty with two overlay entries and new code, \<open>0xD\<close> clean. The
  encoder of the example writes one byte per item, and the root of a storage trie is 2 when
  it holds key 7 and 1 otherwise.\<close>

definition exampleOracle :: TrieOracle where
  "exampleOracle =
     \<lparr>rlp = (\<lambda>v. [ucast v]),
      rlpStream = map (\<lambda>it. case it of RLPu256 x \<Rightarrow> ucast x | RLPh256 h \<Rightarrow> ucast h),
      storageAt = (\<lambda>r. Map.empty),
      trieRoot = (\<lambda>m. case m 7 of None \<Rightarrow> 1 | Some b \<Rightarrow> 2)\<rparr>"

definition exampleCache :: "(Address \<times> Account) list" where
  "exampleCache =
     [(0xA, (newAccount 6 200)\<lparr>acc_baseRoot := 1, acc_codeHash := 5\<rparr>),
      (0xB, (newAccount 0 100)\<lparr>acc_isAlive := False\<rparr>),
      (0xC, (newAccount 1 0)\<lparr>acc_storageOverlay := [(7, 42), (8, 0)], acc_code := [0x60],
                              acc_codeHash := 9, acc_hasNewCode := True\<rparr>),
      (0xD, (newAccount 3 3)\<lparr>acc_isDirty := False\<rparr>)]"

definition exampleTarget :: CommitTarget where
  "exampleTarget = \<lparr>ct_state = [0xB \<mapsto> [1], 0xD \<mapsto> [9]], ct_db = Map.empty, ct_codeSizes = Map.empty\<rparr>"

section \<open>Properties\<close>

lemmas example_defs =
  exampleState_def exampleEnvInfo_def exampleSchedule_def exampleSealEngine_def
  exampleTransaction_def nullTransaction_def exampleExecutive_def exampleBaseGas_def

lemmas example_frame_defs =
  exampleSha3_def exampleFrame_def exampleFrameExecutive_def exampleResult_def
  exampleCreateExecutive_def exampleRevertVM_def exampleReturnVM_def exampleVMFactory_def
  mkExtVM_def emptySubState_def

subsection \<open>The pre-conditions of \<open>initialize\<close>\<close>

text \<open>
  C1. \<open>Executive::initialize\<close> checks its four pre-conditions in this order: the block gas
  limit (else \<open>BlockGasLimitReached\<close>), the intrinsic gas (else \<open>OutOfGasBase\<close>), the
  sender's nonce (else \<open>InvalidNonce\<close>; a failing lookup of the sender gives
  \<open>InvalidSignature\<close>), and the sender's balance against
  \<open>tx.gas * tx.gasPrice + tx.value\<close> (else \<open>NotEnoughCash\<close>). The first check that fails
  decides the exception that is thrown and recorded in \<open>m_excepted\<close>. Whatever the
  outcome, the state and the remaining gas are as before the call.
\<close>

theorem initialize_checks_in_order:
  fixes baseGasRequired transaction ex
  defines "r \<equiv> initialize baseGasRequired transaction ex"
  defines "fits \<equiv> uint (env_gasUsed (m_envInfo ex)) + uint (tx_gas transaction)
                    \<le> uint (env_gasLimit (m_envInfo ex))"
  defines "baseGas \<equiv> baseGasRequired transaction (evmSchedule (m_sealEngine ex) (m_envInfo ex))"
  shows "(\<not> fits \<longrightarrow> fst r = Some ExBlockGasLimitReached \<and> m_excepted (snd r) = BlockGasLimitReached)
    \<and> (fits \<and> \<not> baseGas \<le> uint (tx_gas transaction) \<longrightarrow>
          fst r = Some ExOutOfGasBase \<and> m_excepted (snd r) = OutOfGasBase)
    \<and> (fits \<and> baseGas \<le> uint (tx_gas transaction) \<and> tx_sender transaction = None \<longrightarrow>
          fst r = Some ExInvalidSignature \<and> m_excepted (snd r) = InvalidSignature)
    \<and> (\<forall>sender. fits \<and> baseGas \<le> uint (tx_gas transaction) \<and> tx_sender transaction = Some sender \<and>
          tx_nonce transaction \<noteq> getNonce (m_s ex) sender \<longrightarrow>
          fst r = Some ExInvalidNonce \<and> m_excepted (snd r) = InvalidNonce)
    \<and> (\<forall>sender. fits \<and> baseGas \<le> uint (tx_gas transaction) \<and> tx_sender transaction = Some sender \<and>
          tx_nonce transaction = getNonce (m_s ex) sender \<and>
          \<not> uint (balance (m_s ex) sender) \<ge>
              uint (tx_gas transaction) * uint (tx_gasPrice transaction) + uint (tx_value transaction) \<longrightarrow>
          fst r = Some ExNotEnoughCash \<and> m_excepted (snd r) = NotEnoughCash)
    \<and> (\<forall>sender. fits \<and> baseGas \<le> uint (tx_gas transaction) \<and> tx_sender transaction = Some sender \<and>
          tx_nonce transaction = getNonce (m_s ex) sender \<and>
          uint (balance (m_s ex) sender) \<ge>
              uint (tx_gas transaction) * uint (tx_gasPrice transaction) + uint (tx_value transaction) \<longrightarrow>
          fst r = None \<and> m_excepted (snd r) = m_excepted ex)
    \<and> m_s (snd r) = m_s ex \<and> m_gas (snd r) = m_gas ex
    \<and> (fst r \<noteq> None \<longrightarrow> m_gasCost (snd r) = m_gasCost ex)"
  unfolding r_def fits_def baseGas_def
  by (auto simp: initialize_def Let_def split: option.splits)

text \<open>The scenarios S2 and S3 of the specification, and one transaction for each of the
  other outcomes.\<close>

theorem initialize_checks_in_order_witness:
  "fst (initialize exampleBaseGas (exampleTransaction\<lparr>tx_nonce := 4\<rparr>) exampleExecutive) = Some ExInvalidNonce
   \<and> m_excepted (snd (initialize exampleBaseGas (exampleTransaction\<lparr>tx_nonce := 4\<rparr>) exampleExecutive)) = InvalidNonce
   \<and> m_s (snd (initialize exampleBaseGas (exampleTransaction\<lparr>tx_nonce := 4\<rparr>) exampleExecutive)) = exampleState
   \<and> fst (initialize exampleBaseGas (exampleTransaction\<lparr>tx_gas := 20999\<rparr>) exampleExecutive) = Some ExOutOfGasBase
   \<and> fst (initialize exampleBaseGas (exampleTransaction\<lparr>tx_value := 1000000\<rparr>) exampleExecutive) = Some ExNotEnoughCash
   \<and> fst (initialize exampleBaseGas (exampleTransaction\<lparr>tx_gas := 1000001\<rparr>) exampleExecutive) = Some ExBlockGasLimitReached
   \<and> fst (initialize exampleBaseGas (exampleTransaction\<lparr>tx_sender := None\<rparr>) exampleExecutive) = Some ExInvalidSignature
   \<and> fst (initialize exampleBaseGas exampleTransaction exampleExecutive) = None"
  using initialize_checks_in_order [of exampleExecutive "exampleTransaction\<lparr>tx_nonce := 4\<rparr>" exampleBaseGas]
    initialize_checks_in_order [of exampleExecutive "exampleTransaction\<lparr>tx_gas := 20999\<rparr>" exampleBaseGas]
    initialize_checks_in_order [of exampleExecutive "exampleTransaction\<lparr>tx_value := 1000000\<rparr>" exampleBaseGas]
    initialize_checks_in_order [of exampleExecutive "exampleTransaction\<lparr>tx_gas := 1000001\<rparr>" exampleBaseGas]
    initialize_checks_in_order [of exampleExecutive "exampleTransaction\<lparr>tx_sender := None\<rparr>" exampleBaseGas]
    initialize_checks_in_order [of exampleExecutive exampleTransaction exampleBaseGas]
  by (simp add: example_defs getNonce_def balance_def newAccount_def)

subsection \<open>\<open>size_t\<close> arithmetic of the code deposit\<close>

lemma unat_size_t: "n < 2 ^ 64 \<Longrightarrow> unat (size_t n) = n"
  by (simp add: size_t_def unat_of_nat)

lemma unat_ucast_32_64: "unat (ucast (m :: 32 word) :: 64 word) = unat m"
proof -
  have "unat m < 2 ^ 32" using unsigned_less [of m] by simp
  then have "unat m < 2 ^ 64" by simp
  then show ?thesis
    by (simp add: unsigned_ucast_eq take_bit_nat_eq_self_iff)
qed

lemma unat_ucast_64_256: "unat (ucast (w :: 64 word) :: 256 word) = unat w"
proof -
  have "unat w < 2 ^ 64" using unsigned_less [of w] by simp
  then have "unat w < 2 ^ 256" by simp
  then show ?thesis
    by (simp add: unsigned_ucast_eq take_bit_nat_eq_self_iff)
qed

lemma size_t_gt_iff: "n < 2 ^ 64 \<Longrightarrow> (size_t n > ucast (m :: 32 word)) = (unat m < n)"
  by (simp add: word_less_nat_alt unat_size_t unat_ucast_32_64)

lemma unat_deposit:
  assumes "n < 2 ^ 64" "n \<le> unat (m :: 32 word)"
  shows "unat (size_t n * ucast (c :: 32 word)) = n * unat c"
proof -
  have m: "unat m < 2 ^ 32" using unsigned_less [of m] by simp
  have c: "unat c < 2 ^ 32" using unsigned_less [of c] by simp
  have "n * unat c < 2 ^ 32 * 2 ^ 32"
    using assms(2) m c by (intro mult_strict_mono) auto
  then have "unat (size_t n) * unat (ucast c :: 64 word) < 2 ^ LENGTH(64)"
    using assms(1) by (simp add: unat_size_t unat_ucast_32_64)
  then show ?thesis
    using assms(1) by (simp add: unat_mult_lem [THEN iffD1] unat_size_t unat_ucast_32_64)
qed

lemma ucast_deposit:
  assumes "n < 2 ^ 64" "n \<le> unat (m :: 32 word)"
  shows "(ucast (size_t n * ucast (c :: 32 word)) :: 256 word) = of_nat (n * unat c)"
proof -
  have A: "unat (ucast (size_t n * ucast c) :: 256 word) = n * unat c"
    using assms by (simp add: unat_ucast_64_256 unat_deposit)
  have "unat (size_t n * ucast c) < 2 ^ LENGTH(64)" by (rule unsigned_less)
  then have "n * unat c < 2 ^ 64" using unat_deposit [OF assms, of c] by simp
  then have "n * unat c < 2 ^ LENGTH(256)" by simp
  then have B: "unat (of_nat (n * unat c) :: 256 word) = n * unat c"
    by (simp only: unat_of_nat mod_less)
  show ?thesis
    by (simp only: word_unat_eq_iff A B)
qed

subsection \<open>The paths of \<open>go\<close>\<close>

lemma go_no_frame: "m_ext ex = None \<Longrightarrow> go sha3 vmf onOp ex = Some (True, ex)"
  by (simp add: go_def)

lemma go_throw:
  assumes "m_ext ex = Some ext" "vmf onOp (m_gas ex) ext (m_s ex) = (VMThrow e, g, s, sb)"
  shows "go sha3 vmf onOp ex =
    Some (True, catchVMException e (ex\<lparr>m_gas := g, m_s := s, m_ext := Some (ext\<lparr>sub := sb\<rparr>)\<rparr>))"
  using assms by (simp add: go_def)

lemma go_fatal:
  assumes "m_ext ex = Some ext" "vmf onOp (m_gas ex) ext (m_s ex) = (VMFatal, g, s, sb)"
  shows "go sha3 vmf onOp ex = None"
  using assms by (simp add: go_def)

lemma go_return:
  assumes "m_ext ex = Some ext" "vmf onOp (m_gas ex) ext (m_s ex) = (VMReturn out, g, s, sb)"
  shows "go sha3 vmf onOp ex =
    (let ex1 = ex\<lparr>m_gas := g, m_s := s, m_ext := Some (ext\<lparr>sub := sb\<rparr>)\<rparr> in
     if m_isCreation ex then Some (True, go_deposit sha3 (ext\<lparr>sub := sb\<rparr>) out ex1)
     else Some (True, ex1\<lparr>m_output := out, m_res := map_option (\<lambda>r. r\<lparr>res_output := out\<rparr>) (m_res ex)\<rparr>))"
  using assms by (simp add: go_def Let_def)

lemma catchVMException_eq:
  "catchVMException e ex =
     ex\<lparr>m_gas := 0, m_excepted := toTransactionException e,
        m_ext := map_option (\<lambda>x. x\<lparr>sub := sub_clear (sub x)\<rparr>) (m_ext ex),
        m_newAddress := 0, m_s := rollback (m_savepoint ex) (m_s ex)\<rparr>"
  by (simp add: catchVMException_def revert_def)

text \<open>
  C10. \<open>Executive::go\<close> returns \<open>true\<close> on every path on which it returns: with no frame
  installed it returns \<open>true\<close> and leaves the executive alone; after a VM exception it
  returns \<open>true\<close>, and the failure shows only in the recorded exception, the zeroed gas
  and the rolled-back state. It does not return exactly when the VM run ends in an exception
  that is not a \<open>VMException\<close>, on which the process exits.
\<close>

theorem go_returns_true:
  "(\<forall>b ex'. go sha3 vmf onOp ex = Some (b, ex') \<longrightarrow> b)
   \<and> (m_ext ex = None \<longrightarrow> go sha3 vmf onOp ex = Some (True, ex))
   \<and> (\<forall>ext e g s sb. m_ext ex = Some ext \<and> vmf onOp (m_gas ex) ext (m_s ex) = (VMThrow e, g, s, sb) \<longrightarrow>
        (\<exists>ex'. go sha3 vmf onOp ex = Some (True, ex') \<and> m_excepted ex' = toTransactionException e
           \<and> m_gas ex' = 0 \<and> m_s ex' = rollback (m_savepoint ex) s))
   \<and> (go sha3 vmf onOp ex = None \<longleftrightarrow>
        (\<exists>ext g s sb. m_ext ex = Some ext \<and> vmf onOp (m_gas ex) ext (m_s ex) = (VMFatal, g, s, sb)))"
proof (intro conjI allI impI)
  fix b ex' assume "go sha3 vmf onOp ex = Some (b, ex')"
  then show b
    by (auto simp: go_def Let_def split: option.splits prod.splits VMOutcome.splits if_splits)
next
  assume "m_ext ex = None" then show "go sha3 vmf onOp ex = Some (True, ex)" by (rule go_no_frame)
next
  fix ext e g s sb
  assume "m_ext ex = Some ext \<and> vmf onOp (m_gas ex) ext (m_s ex) = (VMThrow e, g, s, sb)"
  then show "\<exists>ex'. go sha3 vmf onOp ex = Some (True, ex') \<and> m_excepted ex' = toTransactionException e
           \<and> m_gas ex' = 0 \<and> m_s ex' = rollback (m_savepoint ex) s"
    by (simp add: go_throw catchVMException_eq)
next
  show "go sha3 vmf onOp ex = None \<longleftrightarrow>
        (\<exists>ext g s sb. m_ext ex = Some ext \<and> vmf onOp (m_gas ex) ext (m_s ex) = (VMFatal, g, s, sb))"
    by (auto simp: go_def Let_def split: option.splits prod.splits VMOutcome.splits if_splits)
qed

theorem go_returns_true_witness:
  "map_option fst (go exampleSha3 (exampleVMFactory exampleRevertVM) False exampleFrameExecutive) = Some True
   \<and> map_option (m_excepted \<circ> snd) (go exampleSha3 (exampleVMFactory exampleRevertVM) False exampleFrameExecutive) = Some Revert
   \<and> go exampleSha3 (exampleVMFactory exampleRevertVM) False exampleExecutive = Some (True, exampleExecutive)"
  using go_returns_true [of exampleSha3 "exampleVMFactory exampleRevertVM" False exampleFrameExecutive]
    go_returns_true [of exampleSha3 "exampleVMFactory exampleRevertVM" False exampleExecutive]
  by (auto simp: example_defs example_frame_defs)

text \<open>
  C2, as amended. For every VM exception raised during \<open>Executive::go\<close>, an explicit
  revert included and whatever the schedule of the block, the remaining gas is set to 0, the
  exception is mapped to its \<open>TransactionException\<close>, the frame's sub-state is cleared,
  the new address is nulled and the state is rolled back to the frame's savepoint; \<open>go\<close>
  returns \<open>true\<close>.
\<close>

theorem go_vm_exception:
  assumes "m_ext ex = Some ext" "vmf onOp (m_gas ex) ext (m_s ex) = (VMThrow e, g, s, sb)"
  shows "go sha3 vmf onOp ex =
    Some (True, ex\<lparr>m_gas := 0, m_excepted := toTransactionException e,
                   m_ext := Some (ext\<lparr>sub := sub_clear sb\<rparr>), m_newAddress := 0,
                   m_s := rollback (m_savepoint ex) s\<rparr>)"
  using assms by (simp add: go_throw catchVMException_eq)

text \<open>A VM that reverts with 7 gas left, on the call frame at \<open>0xB\<close>.\<close>

theorem go_vm_exception_witness:
  "go exampleSha3 (exampleVMFactory exampleRevertVM) False exampleFrameExecutive =
     Some (True, exampleFrameExecutive\<lparr>m_gas := 0, m_excepted := Revert,
                   m_ext := Some (exampleFrame\<lparr>sub := sub_clear (sub exampleFrame)\<rparr>),
                   m_newAddress := 0,
                   m_s := rollback 0 (incNonce 0xB exampleState)\<rparr>)"
  using go_vm_exception [of exampleFrameExecutive exampleFrame "exampleVMFactory exampleRevertVM" False
      VMRevert 7 "incNonce 0xB exampleState" "sub exampleFrame" exampleSha3]
  by (simp add: example_defs example_frame_defs)

text \<open>C2, as stated, fails: the VM raises an explicit revert with 7 gas left, and \<open>go\<close>
  leaves the frame with no gas.\<close>

theorem go_revert_gas_counterexample:
  "fst (exampleRevertVM (m_gas exampleFrameExecutive) exampleFrame (m_s exampleFrameExecutive)) = VMThrow VMRevert
   \<and> fst (snd (exampleRevertVM (m_gas exampleFrameExecutive) exampleFrame (m_s exampleFrameExecutive))) = 7
   \<and> map_option (m_gas \<circ> snd) (go exampleSha3 (exampleVMFactory exampleRevertVM) False exampleFrameExecutive) = Some 0"
  by (simp add: go_def catchVMException_def revert_def example_defs example_frame_defs)

text \<open>
  C5. On normal return of the VM in a creation frame, with \<open>out\<close> the returned bytecode:
  if \<open>|out| > maxCodeSize\<close> an out-of-gas exception is raised (and handled as every VM
  exception is); otherwise, if the remaining gas is at least \<open>|out| * createDataGas\<close>, the
  deposit is deducted, the code is installed with \<open>setNewCode\<close> and
  \<open>CodeDeposit::Success\<close> is recorded; otherwise, when the schedule does not make a failed
  deposit exceptional, \<open>CodeDeposit::Failed\<close> is recorded and the new account is given the
  empty code; when it does, out-of-gas is raised. The product does not wrap around in
  \<open>size_t\<close>, since both factors are below \<open>2 ^ 32\<close> once the first check has passed.
\<close>

theorem go_code_deposit:
  fixes sha3 vmf onOp ex ext out g s sb
  defines "sched \<equiv> evmSchedule (m_sealEngine ex) (m_envInfo ex)"
  defines "ex1 \<equiv> ex\<lparr>m_gas := g, m_s := s, m_ext := Some (ext\<lparr>sub := sb\<rparr>),
                     m_res := map_option (\<lambda>r. r\<lparr>res_gasForDeposit := g,
                                                res_depositSize := size_t (length out)\<rparr>) (m_res ex)\<rparr>"
  assumes frame: "m_ext ex = Some ext" and creation: "m_isCreation ex"
    and run: "vmf onOp (m_gas ex) ext (m_s ex) = (VMReturn out, g, s, sb)"
    and len: "length out < 2 ^ 64"
  shows "(length out > unat (maxCodeSize sched) \<longrightarrow>
            go sha3 vmf onOp ex = Some (True, catchVMException VMOutOfGas ex1)
            \<and> m_excepted (catchVMException VMOutOfGas ex1) = OutOfGas)
    \<and> (length out \<le> unat (maxCodeSize sched) \<and> unat g \<ge> length out * unat (createDataGas sched) \<longrightarrow>
            go sha3 vmf onOp ex =
              Some (True, ex1\<lparr>m_gas := g - of_nat (length out * unat (createDataGas sched)),
                              m_res := map_option (\<lambda>r. r\<lparr>res_codeDeposit := CodeDepositSuccess,
                                                         res_output := out\<rparr>) (m_res ex1),
                              m_s := setNewCode sha3 (myAddress ext) out s\<rparr>))
    \<and> (length out \<le> unat (maxCodeSize sched) \<and> \<not> unat g \<ge> length out * unat (createDataGas sched)
          \<and> \<not> exceptionalFailedCodeDeposit sched \<longrightarrow>
            go sha3 vmf onOp ex =
              Some (True, ex1\<lparr>m_res := map_option (\<lambda>r. r\<lparr>res_codeDeposit := CodeDepositFailed,
                                                         res_output := []\<rparr>) (m_res ex1),
                              m_s := setNewCode sha3 (myAddress ext) [] s\<rparr>)
            \<and> code (setNewCode sha3 (myAddress ext) [] s) (myAddress ext) = [])
    \<and> (length out \<le> unat (maxCodeSize sched) \<and> \<not> unat g \<ge> length out * unat (createDataGas sched)
          \<and> exceptionalFailedCodeDeposit sched \<longrightarrow>
            go sha3 vmf onOp ex = Some (True, catchVMException VMOutOfGas ex1))"
proof -
  have cmp: "(uint (size_t (length out) * ucast (createDataGas sched)) \<le> uint g)
       = (length out * unat (createDataGas sched) \<le> unat g)"
    if "length out \<le> unat (maxCodeSize sched)"
    by (simp only: uint_nat of_nat_le_iff unat_deposit [OF len that, of "createDataGas sched"])
  have code_unset: "code (setNewCode sha3 (myAddress ext) [] s) (myAddress ext) = []"
    by (simp add: code_def setNewCode_def updAccount_def pushChange_def split: option.splits)
  have dep: "(ucast (size_t (length out) * ucast (createDataGas sched)) :: u256)
       = of_nat (length out * unat (createDataGas sched))"
    if "length out \<le> unat (maxCodeSize sched)"
    by (rule ucast_deposit [OF len that])
  have unfold: "go sha3 vmf onOp ex =
      Some (True, go_deposit sha3 (ext\<lparr>sub := sb\<rparr>) out
                    (ex\<lparr>m_gas := g, m_s := s, m_ext := Some (ext\<lparr>sub := sb\<rparr>)\<rparr>))"
    using creation go_return [of ex ext vmf onOp out g s sb sha3, OF frame run] by simp
  show ?thesis
  proof (cases "length out \<le> unat (maxCodeSize sched)")
    case False
    then show ?thesis
      using len
      by (simp add: unfold go_deposit_def Let_def size_t_gt_iff ex1_def catchVMException_eq
            flip: sched_def)
  next
    case True
    note small = this
    show ?thesis
    proof (cases "length out * unat (createDataGas sched) \<le> unat g")
      case True
      then show ?thesis
        using len small
        by (simp add: unfold go_deposit_def Let_def size_t_gt_iff ex1_def cmp dep option.map_comp o_def
              del: of_nat_mult flip: sched_def)
    next
      case False
      then show ?thesis
        using len small
        by (simp add: unfold go_deposit_def Let_def size_t_gt_iff ex1_def cmp code_unset
              option.map_comp o_def catchVMException_eq flip: sched_def)
    qed
  qed
qed

text \<open>Three bytes of code cost 600 gas: with 1000 gas left the deposit succeeds and 400
  remain, with 500 it fails and the gas stays.\<close>

theorem go_code_deposit_witness:
  "map_option (m_gas \<circ> snd) (go exampleSha3 (exampleVMFactory (exampleReturnVM 1000)) False exampleCreateExecutive) = Some 400
   \<and> map_option (map_option res_codeDeposit \<circ> m_res \<circ> snd)
        (go exampleSha3 (exampleVMFactory (exampleReturnVM 1000)) False exampleCreateExecutive) = Some (Some CodeDepositSuccess)
   \<and> map_option (m_gas \<circ> snd) (go exampleSha3 (exampleVMFactory (exampleReturnVM 500)) False exampleCreateExecutive) = Some 500
   \<and> map_option (map_option res_codeDeposit \<circ> m_res \<circ> snd)
        (go exampleSha3 (exampleVMFactory (exampleReturnVM 500)) False exampleCreateExecutive) = Some (Some CodeDepositFailed)"
  using go_code_deposit [of exampleCreateExecutive exampleFrame "exampleVMFactory (exampleReturnVM 1000)" False
      "[1,2,3]" 1000 exampleState "sub exampleFrame" exampleSha3]
    go_code_deposit [of exampleCreateExecutive exampleFrame "exampleVMFactory (exampleReturnVM 500)" False
      "[1,2,3]" 500 exampleState "sub exampleFrame" exampleSha3]
  by (simp add: example_defs example_frame_defs)

subsection \<open>Rollback undoes what was logged\<close>

lemma view_log_update [simp]: "view (s\<lparr>m_changeLog := l\<rparr>) = view s"
  by (simp add: view_def fun_eq_iff)

lemma view_touched_update [simp]: "view (s\<lparr>m_touched := t\<rparr>) = view s"
  by (simp add: view_def fun_eq_iff)

lemma view_pushChange [simp]: "view (pushChange c s) = view s"
  by (simp add: pushChange_def)

lemma log_pushChange [simp]: "m_changeLog (pushChange c s) = m_changeLog s @ [c]"
  by (simp add: pushChange_def)

lemma log_updAccount [simp]: "m_changeLog (updAccount a f s) = m_changeLog s"
  by (simp add: updAccount_def split: option.splits)

lemma view_updAccount:
  "view (updAccount a f s) =
     (case m_cache s a of
        None \<Rightarrow> view s
      | Some acc \<Rightarrow> (view s)(a \<mapsto> (acc_nonce (f acc), acc_balance (f acc))))"
  by (auto simp: updAccount_def view_def fun_eq_iff split: option.splits)

lemma view_updAccount_same:
  "(\<And>acc. acc_nonce (f acc) = acc_nonce acc \<and> acc_balance (f acc) = acc_balance acc) \<Longrightarrow>
   view (updAccount a f s) = view s"
  by (auto simp: updAccount_def view_def fun_eq_iff split: option.splits)

lemma log_undo [simp]: "m_changeLog (undo c s) = m_changeLog s"
  by (simp add: undo_def Let_def split: Kind.splits)

lemma view_undo: "view (undo c s) = undoView c (view s)"
  by (cases "change_kind c")
     (auto simp: undo_def undoView_def Let_def view_updAccount view_updAccount_same view_def fun_eq_iff
           split: option.splits)

lemma view_fold_undo: "view (fold undo cs s) = fold undoView cs (view s)"
  by (induction cs arbitrary: s) (simp_all add: view_undo)

lemma rollback_log_append:
  "rollback_log (length l0) (rev ext @ rev l0) s = (fold undo (rev ext) s)\<lparr>m_changeLog := l0\<rparr>"
proof (induction ext arbitrary: s rule: rev_induct)
  case Nil
  show ?case by (cases l0 rule: rev_cases) simp_all
next
  case (snoc c ext)
  then show ?case by simp
qed

lemma extends_refl: "extends s s"
  by (simp add: extends_def)

lemma extends_trans: "extends a b \<Longrightarrow> extends b c \<Longrightarrow> extends a c"
  unfolding extends_def
proof (elim exE conjE)
  fix e1 e2
  assume "m_changeLog b = m_changeLog a @ e1" "fold undoView (rev e1) (view b) = view a"
    "m_changeLog c = m_changeLog b @ e2" "fold undoView (rev e2) (view c) = view b"
  then have "m_changeLog c = m_changeLog a @ (e1 @ e2) \<and> fold undoView (rev (e1 @ e2)) (view c) = view a"
    by simp
  then show "\<exists>ext. m_changeLog c = m_changeLog a @ ext \<and> fold undoView (rev ext) (view c) = view a"
    by blast
qed

lemma extends_silent: "m_changeLog s' = m_changeLog s \<Longrightarrow> view s' = view s \<Longrightarrow> extends s s'"
  by (simp add: extends_def)

lemma extends_push:
  "m_changeLog s' = m_changeLog s @ [c] \<Longrightarrow> undoView c (view s') = view s \<Longrightarrow> extends s s'"
  unfolding extends_def by (intro exI [of _ "[c]"]) simp

lemma rollback_extends:
  assumes "extends s0 s"
  shows "view (rollback (savepoint s0) s) = view s0"
    and "m_changeLog (rollback (savepoint s0) s) = m_changeLog s0"
proof -
  from assms obtain ext where
    log: "m_changeLog s = m_changeLog s0 @ ext" and v: "fold undoView (rev ext) (view s) = view s0"
    unfolding extends_def by blast
  have r: "rollback (savepoint s0) s = (fold undo (rev ext) s)\<lparr>m_changeLog := m_changeLog s0\<rparr>"
    by (simp add: rollback_def savepoint_def log rollback_log_append)
  show "view (rollback (savepoint s0) s) = view s0"
    by (simp add: r view_fold_undo v)
  show "m_changeLog (rollback (savepoint s0) s) = m_changeLog s0"
    by (simp add: r)
qed

lemma view_createAccount:
  "view (createAccount a acc s) = (view s)(a \<mapsto> (acc_nonce acc, acc_balance acc))"
  by (simp add: createAccount_def view_def fun_eq_iff)

lemma extends_ensureAccount: "extends s (ensureAccount a s)"
proof (cases "addressInUse s a")
  case True
  then show ?thesis by (simp add: ensureAccount_def extends_refl)
next
  case False
  then have "view s a = None" by (simp add: addressInUse_def view_def)
  then have none: "(view s)(a := None) = view s" by (simp add: fun_eq_iff)
  have "extends s (createAccount a (newAccount (m_accountStartNonce s) 0) s)"
  proof (rule extends_push [where c = "mkChange Create a 0"])
    show "m_changeLog (createAccount a (newAccount (m_accountStartNonce s) 0) s)
        = m_changeLog s @ [mkChange Create a 0]"
      by (simp add: createAccount_def)
    show "undoView (mkChange Create a 0) (view (createAccount a (newAccount (m_accountStartNonce s) 0) s))
        = view s"
      by (simp add: view_createAccount undoView_def mkChange_def none)
  qed
  with False show ?thesis by (simp add: ensureAccount_def)
qed

lemma extends_touch: "extends s (touch a s)"
  by (cases "a \<in> m_touched s")
     (auto simp: touch_def extends_refl undoView_def mkChange_def intro!: extends_push [where c = "mkChange Touch a 0"])

lemma extends_addBalance: "extends s (addBalance a v s)"
proof -
  define s1 where "s1 = touch a (ensureAccount a s)"
  define s2 where "s2 = updAccount a (\<lambda>acc. acc\<lparr>acc_balance := acc_balance acc + v, acc_isDirty := True\<rparr>) s1"
  have 1: "extends s s1"
    unfolding s1_def by (rule extends_trans [OF extends_ensureAccount extends_touch])
  have 2: "extends s1 (if v \<noteq> 0 then pushChange (mkChange Balance a v) s2 else s2)"
  proof (cases "v = 0")
    case True
    then show ?thesis
      by (auto simp: s2_def view_updAccount fun_eq_iff split: option.splits intro!: extends_silent)
         (auto simp: view_def)
  next
    case False
    then show ?thesis
      by (auto simp: s2_def view_updAccount undoView_def mkChange_def fun_eq_iff view_def
               split: option.splits intro!: extends_push [where c = "mkChange Balance a v"])
  qed
  have "addBalance a v s = (if v \<noteq> 0 then pushChange (mkChange Balance a v) s2 else s2)"
    by (simp only: addBalance_def Let_def s1_def s2_def)
  then show ?thesis
    using extends_trans [OF 1 2] by (simp only:)
qed

lemma extends_incNonce: "extends s (incNonce a s)"
proof -
  have "extends (ensureAccount a s) (incNonce a s)"
    by (auto simp: incNonce_def view_updAccount undoView_def mkChange_def fun_eq_iff view_def
             split: option.splits intro!: extends_push [where c = "mkChange Nonce a 0"])
  then show ?thesis by (rule extends_trans [OF extends_ensureAccount])
qed

lemma extends_setStorage: "extends s (setStorage a k v s)"
  by (rule extends_push [where c = "mkStorageChange a k (storage s a k)"])
     (auto simp: setStorage_def undoView_def mkStorageChange_def view_updAccount_same)

lemma extends_setNewCode: "extends s (setNewCode sha3 a c s)"
  by (rule extends_push [where c = "mkChange NewCode a 0"])
     (auto simp: setNewCode_def undoView_def mkChange_def view_updAccount_same)

lemma extends_subBalance: "extends s (stateOf (subBalance a v s))"
  by (simp add: subBalance_def extends_refl extends_addBalance)

lemma extends_transferBalance: "extends s (stateOf (transferBalance a b v s))"
  by (auto simp: transferBalance_def subBalance_def extends_refl
           intro: extends_trans [OF extends_addBalance extends_addBalance])

lemma extends_fold:
  "(\<And>x s. x \<in> set xs \<Longrightarrow> extends s (f x s)) \<Longrightarrow> extends s (fold f xs s)"
proof (induction xs arbitrary: s)
  case Nil
  show ?case by (simp add: extends_refl)
next
  case (Cons x xs)
  have "extends s (f x s)" by (rule Cons.prems) simp
  moreover have "extends (f x s) (fold f xs (f x s))"
    by (rule Cons.IH) (rule Cons.prems, simp)
  ultimately show ?case by (auto intro: extends_trans)
qed

lemma extends_runOp: "extends s (runOp sha3 op s)"
proof (induction sha3 op s rule: runOp.induct)
  case (7 sha3 ops failed s)
  have run: "extends s (fold (runOp sha3) ops s)"
    by (rule extends_fold) (rule 7, simp_all)
  show ?case
  proof (cases failed)
    case True
    have "extends s (rollback (savepoint s) (fold (runOp sha3) ops s))"
      by (rule extends_silent) (simp_all add: rollback_extends [OF run])
    with True show ?thesis by (simp add: Let_def)
  next
    case False
    with run show ?thesis by (simp add: Let_def)
  qed
qed (simp_all add: extends_addBalance extends_subBalance extends_transferBalance extends_incNonce
       extends_setStorage extends_setNewCode)

lemma extends_runOps: "extends s (runOps sha3 ops s)"
  unfolding runOps_def by (rule extends_fold) (rule extends_runOp)

subsection \<open>Balances and nonces after the operations of the state\<close>

lemma balance_view: "balance s a = (case view s a of None \<Rightarrow> 0 | Some (n, b) \<Rightarrow> b)"
  by (simp add: balance_def view_def split: option.splits)

lemma getNonce_view:
  "getNonce s a = (case view s a of None \<Rightarrow> m_accountStartNonce s | Some (n, b) \<Rightarrow> n)"
  by (simp add: getNonce_def view_def split: option.splits)

lemma cache_touch [simp]: "m_cache (touch a s) = m_cache s"
  by (simp add: touch_def pushChange_def)

lemma cache_pushChange [simp]: "m_cache (pushChange c s) = m_cache s"
  by (simp add: pushChange_def)

lemma cache_ensureAccount:
  "m_cache (ensureAccount a s) =
     (case m_cache s a of
        None \<Rightarrow> (m_cache s)(a \<mapsto> newAccount (m_accountStartNonce s) 0)
      | Some acc \<Rightarrow> m_cache s)"
  by (simp add: ensureAccount_def addressInUse_def createAccount_def split: option.splits)

lemma startNonce_pushChange [simp]: "m_accountStartNonce (pushChange c s) = m_accountStartNonce s"
  by (simp add: pushChange_def)

lemma startNonce_updAccount [simp]: "m_accountStartNonce (updAccount a f s) = m_accountStartNonce s"
  by (simp add: updAccount_def split: option.splits)

lemma startNonce_ensureAccount [simp]: "m_accountStartNonce (ensureAccount a s) = m_accountStartNonce s"
  by (simp add: ensureAccount_def createAccount_def)

lemma startNonce_touch [simp]: "m_accountStartNonce (touch a s) = m_accountStartNonce s"
  by (simp add: touch_def)

lemma cache_addBalance:
  "m_cache (addBalance a v s) =
     (m_cache s)(a \<mapsto>
        (case m_cache s a of
           None \<Rightarrow> (newAccount (m_accountStartNonce s) 0)\<lparr>acc_balance := v\<rparr>
         | Some acc \<Rightarrow> acc\<lparr>acc_balance := acc_balance acc + v, acc_isDirty := True\<rparr>))"
  by (auto simp: addBalance_def Let_def updAccount_def cache_ensureAccount newAccount_def
           split: option.splits)

lemma cache_incNonce:
  "m_cache (incNonce a s) =
     (m_cache s)(a \<mapsto>
        (case m_cache s a of
           None \<Rightarrow> newAccount (m_accountStartNonce s + 1) 0
         | Some acc \<Rightarrow> acc\<lparr>acc_nonce := acc_nonce acc + 1, acc_isDirty := True\<rparr>))"
  by (auto simp: incNonce_def updAccount_def cache_ensureAccount newAccount_def
           split: option.splits)

lemma startNonce_addBalance [simp]: "m_accountStartNonce (addBalance a v s) = m_accountStartNonce s"
  by (simp add: addBalance_def Let_def)

lemma startNonce_incNonce [simp]: "m_accountStartNonce (incNonce a s) = m_accountStartNonce s"
  by (simp add: incNonce_def)

lemma balance_addBalance:
  "balance (addBalance a v s) b = (if b = a then balance s a + v else balance s b)"
  by (simp add: balance_def cache_addBalance newAccount_def split: option.splits)

lemma getNonce_addBalance [simp]: "getNonce (addBalance a v s) b = getNonce s b"
  by (simp add: getNonce_def cache_addBalance newAccount_def split: option.splits)

lemma getNonce_incNonce:
  "getNonce (incNonce a s) b = (if b = a then getNonce s a + 1 else getNonce s b)"
  by (simp add: getNonce_def cache_incNonce newAccount_def split: option.splits)

lemma balance_incNonce [simp]: "balance (incNonce a s) b = balance s b"
  by (simp add: balance_def cache_incNonce newAccount_def split: option.splits)

lemma touched_addBalance: "a \<in> m_touched (addBalance a v s)"
  by (auto simp: addBalance_def Let_def touch_def updAccount_def pushChange_def split: option.splits)

lemma inUse_addBalance: "addressInUse (addBalance a v s) a"
  by (simp add: addressInUse_def cache_addBalance)

lemma inUse_incNonce: "addressInUse (incNonce a s) a"
  by (simp add: addressInUse_def cache_incNonce)

text \<open>
  C9. \<open>State::subBalance\<close> fails with \<open>NotEnoughCash\<close> whenever the balance of the account is
  less than the amount, which includes an absent account and a non-zero amount.
  \<open>State::transferBalance\<close> subtracts from the source before it adds to the destination:
  when the subtraction fails the state is the one before the call, with nothing logged;
  otherwise both are applied.
\<close>

theorem subBalance_transferBalance:
  "(balance s a < v \<longrightarrow> subBalance a v s = Inl (ExNotEnoughCash, s))
   \<and> (m_cache s a = None \<and> v \<noteq> 0 \<longrightarrow> subBalance a v s = Inl (ExNotEnoughCash, s))
   \<and> (\<not> balance s a < v \<longrightarrow>
         (\<exists>s1. subBalance a v s = Inr s1 \<and> balance s1 a = balance s a - v))
   \<and> (balance s from < v \<longrightarrow> transferBalance from to v s = Inl (ExNotEnoughCash, s))
   \<and> (\<not> balance s from < v \<longrightarrow>
         (\<exists>s1 s2. subBalance from v s = Inr s1 \<and> transferBalance from to v s = Inr s2
            \<and> s2 = addBalance to v s1
            \<and> balance s1 from = balance s from - v
            \<and> balance s2 to = balance s1 to + v
            \<and> (from \<noteq> to \<longrightarrow> balance s2 from = balance s from - v \<and> balance s2 to = balance s to + v)))"
proof -
  have absent: "balance s a < v" if "m_cache s a = None" "v \<noteq> 0"
    using that by (simp add: balance_def word_neq_0_conv)
  show ?thesis
    using absent
    by (auto simp: subBalance_def transferBalance_def balance_addBalance)
qed

theorem subBalance_transferBalance_witness:
  "subBalance 0xB 1 exampleState = Inl (ExNotEnoughCash, exampleState)
   \<and> transferBalance 0xB 0xA 1 exampleState = Inl (ExNotEnoughCash, exampleState)
   \<and> map_sum id (\<lambda>s. (balance s 0xA, balance s 0xB)) (transferBalance 0xA 0xB 1000 exampleState)
       = Inr (999000, 1000)"
  using subBalance_transferBalance [of exampleState "0xB" 1 "0xB" "0xA"]
    subBalance_transferBalance [of exampleState "0xA" 1000 "0xA" "0xB"]
  by (auto simp: example_defs balance_def newAccount_def)

subsection \<open>The precompile short-circuit of \<open>call\<close>\<close>

text \<open>
  C4. In \<open>Executive::call\<close>, when the code address is a precompile and the supplied gas is
  strictly less than the precompile's cost, the exception is set to \<open>OutOfGasBase\<close> and the
  dispatch returns \<open>true\<close>, with no frame installed, no gas set and no transfer made; at or
  past the EIP-158 fork block the code address is touched first by
  \<open>addBalance(codeAddress, 0)\<close>, which leaves it in the touched set.
\<close>

theorem call_precompile_out_of_gas:
  fixes p gasPrice orig ex
  defines "s1 \<equiv> (if tx_bool (m_t ex) then incNonce (senderAddress p) (m_s ex) else m_s ex)"
  defines "number \<equiv> env_number (m_envInfo ex)"
  assumes pre: "isPrecompiled (m_sealEngine ex) (codeAddress p) number"
    and oog: "uint (gas p) < costOfPrecompiled (m_sealEngine ex) (codeAddress p) (data p) number"
  shows "call p gasPrice orig ex =
           Inr (True, ex\<lparr>m_s := (if number \<ge> EIP158ForkBlock (m_sealEngine ex)
                                  then addBalance (codeAddress p) 0 s1 else s1),
                          m_savepoint := savepoint s1,
                          m_excepted := OutOfGasBase\<rparr>)
         \<and> (number \<ge> EIP158ForkBlock (m_sealEngine ex) \<longrightarrow>
              codeAddress p \<in> m_touched (addBalance (codeAddress p) 0 s1)
              \<and> addressInUse (addBalance (codeAddress p) 0 s1) (codeAddress p))"
  using pre oog unfolding s1_def number_def
  by (simp add: call_def Let_def touched_addBalance inUse_addBalance)

theorem call_precompile_out_of_gas_witness:
  "call_simple 3 0xA 0 1 [] 599 (exampleExecutive\<lparr>m_t := exampleTransaction\<rparr>) =
     Inr (True, exampleExecutive\<lparr>m_t := exampleTransaction,
                  m_s := addBalance 3 0 (incNonce 0xA exampleState),
                  m_savepoint := savepoint (incNonce 0xA exampleState),
                  m_excepted := OutOfGasBase\<rparr>)
   \<and> 3 \<in> m_touched (addBalance 3 0 (incNonce 0xA exampleState))"
  using call_precompile_out_of_gas [of "exampleExecutive\<lparr>m_t := exampleTransaction\<rparr>"
      "\<lparr>senderAddress = 0xA, codeAddress = 3, receiveAddress = 3, valueTransfer = 0,
        apparentValue = 0, gas = 599, data = []\<rparr>" 1 "0xA"]
  by (simp add: call_simple_def example_defs tx_bool_def)

subsection \<open>Refund and fees in \<open>finalize\<close>\<close>




subsection \<open>The savepoint of a dispatch and a later revert\<close>

lemma call_transfer_state:
  "m_s (executiveOf (call_transfer p ex))
     = stateOf (transferBalance (senderAddress p) (receiveAddress p) (valueTransfer p) (m_s ex))
   \<and> m_savepoint (executiveOf (call_transfer p ex)) = m_savepoint ex"
  by (simp add: call_transfer_def Let_def split: sum.splits prod.splits)

lemma call_savepoint:
  fixes p gasPrice orig ex
  defines "s1 \<equiv> (if tx_bool (m_t ex) then incNonce (senderAddress p) (m_s ex) else m_s ex)"
  shows "m_savepoint (executiveOf (call p gasPrice orig ex)) = savepoint s1"
    and "extends s1 (m_s (executiveOf (call p gasPrice orig ex)))"
  unfolding s1_def
  by (simp_all add: call_def Let_def call_transfer_state extends_refl extends_addBalance
        extends_transferBalance split: prod.splits)

lemma create_savepoint:
  "m_savepoint (executiveOf (create sha3 rlpList sender endowment gasPrice g init orig ex))
     = savepoint (incNonce sender (m_s ex))"
  by (simp add: create_def Let_def split: sum.splits prod.splits)

lemma create_extends:
  "extends (incNonce sender (m_s ex))
     (m_s (executiveOf (create sha3 rlpList sender endowment gasPrice g init orig ex)))"
proof -
  define s1 where "s1 = incNonce sender (m_s ex)"
  define a where "a = right160 (sha3 (rlpList sender (getNonce (m_s ex) sender)))"
  have t: "extends s1 (stateOf (transferBalance sender a endowment s1))"
    by (rule extends_transferBalance)
  have i: "extends s1 (incNonce a (stateOf (transferBalance sender a endowment s1)))"
    by (rule extends_trans [OF t extends_incNonce])
  have c: "extends s1 (setNewCode sha3 a [] s')" if "extends s1 s'" for s'
    by (rule extends_trans [OF that extends_setNewCode])
  show ?thesis
    using t i c [OF t] c [OF i]
    by (auto simp: create_def Let_def s1_def a_def split: sum.splits prod.splits)
qed

lemma last_log_incNonce: "last (m_changeLog (incNonce a s)) = mkChange Nonce a 0"
  by (simp add: incNonce_def)

lemma revert_state:
  assumes "extends s0 s" "m_savepoint ex = savepoint s0"
  shows "view (m_s (revert (ex\<lparr>m_s := s\<rparr>))) = view s0"
  using rollback_extends(1) [OF assms(1)] assms(2) by (simp add: revert_def)

text \<open>
  C7. In \<open>Executive::call\<close>, for a frame with a transaction, and in \<open>Executive::create\<close>,
  the savepoint recorded is the size of the change log after the sender's nonce has been
  incremented, so the \<open>Nonce\<close> entry lies below the savepoint. Consequently, when
  \<open>execute\<close> has debited the gas cost and dispatched, and the frame has then performed any
  operations on the state, a revert leaves the sender with the nonce incremented once and
  the balance reduced by the gas cost.
\<close>

theorem nonce_before_savepoint:
  "(tx_bool (m_t ex) \<longrightarrow>
      m_savepoint (executiveOf (call p gasPrice orig ex)) = savepoint (incNonce (senderAddress p) (m_s ex)))
   \<and> m_savepoint (executiveOf (create sha3 rlpList sender endowment gasPrice g init orig ex))
       = savepoint (incNonce sender (m_s ex))
   \<and> last (m_changeLog (incNonce sender (m_s ex))) = mkChange Nonce sender 0
   \<and> (\<forall>b ex1. tx_bool (m_t ex) \<and> tx_sender (m_t ex) = Some sender
         \<and> execute sha3 rlpList ex = Inr (b, ex1) \<longrightarrow>
         getNonce (m_s (revert (ex1\<lparr>m_s := runOps sha3 ops (m_s ex1)\<rparr>))) sender
           = getNonce (m_s ex) sender + 1
         \<and> balance (m_s (revert (ex1\<lparr>m_s := runOps sha3 ops (m_s ex1)\<rparr>))) sender
           = balance (m_s ex) sender - m_gasCost ex)"
proof -
  have dispatch: "tx_bool (m_t ex) \<longrightarrow>
      m_savepoint (executiveOf (call p gasPrice orig ex)) = savepoint (incNonce (senderAddress p) (m_s ex))"
    by (simp add: call_savepoint(1))
  have later: "\<forall>b ex1. tx_bool (m_t ex) \<and> tx_sender (m_t ex) = Some sender
         \<and> execute sha3 rlpList ex = Inr (b, ex1) \<longrightarrow>
         getNonce (m_s (revert (ex1\<lparr>m_s := runOps sha3 ops (m_s ex1)\<rparr>))) sender
           = getNonce (m_s ex) sender + 1
         \<and> balance (m_s (revert (ex1\<lparr>m_s := runOps sha3 ops (m_s ex1)\<rparr>))) sender
           = balance (m_s ex) sender - m_gasCost ex"
  proof (intro allI impI)
    fix b ex1
    assume a: "tx_bool (m_t ex) \<and> tx_sender (m_t ex) = Some sender
           \<and> execute sha3 rlpList ex = Inr (b, ex1)"
    then have tx: "tx_bool (m_t ex)" and snd: "tx_sender (m_t ex) = Some sender"
      and exe: "execute sha3 rlpList ex = Inr (b, ex1)"
      by simp_all
    define exR where "exR = revert (ex1\<lparr>m_s := runOps sha3 ops (m_s ex1)\<rparr>)"
    from exe snd obtain sd where debit: "subBalance sender (m_gasCost ex) (m_s ex) = Inr sd"
      by (auto simp: execute_def split: sum.splits prod.splits)
    then have sd: "sd = addBalance sender (0 - m_gasCost ex) (m_s ex)"
      by (simp add: subBalance_def split: if_splits)
    define si where "si = incNonce sender sd"
    have disp: "m_savepoint ex1 = savepoint si \<and> extends si (m_s ex1)"
    proof (cases "isCreation (m_t ex)")
      case True
      with exe snd debit have "create sha3 rlpList sender (tx_value (m_t ex)) (tx_gasPrice (m_t ex))
          (tx_gas (m_t ex) - word_of_int (m_baseGasRequired ex)) (tx_data (m_t ex)) sender (ex\<lparr>m_s := sd\<rparr>)
          = Inr (b, ex1)"
        by (simp add: execute_def Let_def)
      then show ?thesis
        using create_savepoint [of sha3 rlpList sender "tx_value (m_t ex)" "tx_gasPrice (m_t ex)"
            "tx_gas (m_t ex) - word_of_int (m_baseGasRequired ex)" "tx_data (m_t ex)" sender "ex\<lparr>m_s := sd\<rparr>"]
          create_extends [of sender "ex\<lparr>m_s := sd\<rparr>" sha3 rlpList "tx_value (m_t ex)" "tx_gasPrice (m_t ex)"
            "tx_gas (m_t ex) - word_of_int (m_baseGasRequired ex)" "tx_data (m_t ex)" sender]
        by (simp add: si_def)
    next
      case False
      define p where "p = \<lparr>senderAddress = sender, codeAddress = tx_receiveAddress (m_t ex),
          receiveAddress = tx_receiveAddress (m_t ex), valueTransfer = tx_value (m_t ex),
          apparentValue = tx_value (m_t ex),
          gas = tx_gas (m_t ex) - word_of_int (m_baseGasRequired ex), data = tx_data (m_t ex)\<rparr>"
      from False exe snd debit have "call p (tx_gasPrice (m_t ex)) sender (ex\<lparr>m_s := sd\<rparr>) = Inr (b, ex1)"
        by (simp add: execute_def Let_def call_simple_def p_def)
      then show ?thesis
        using call_savepoint [where p = p and gasPrice = "tx_gasPrice (m_t ex)" and orig = sender
            and ex = "ex\<lparr>m_s := sd\<rparr>"] tx
        by (simp add: si_def p_def)
    qed
    have "extends si (runOps sha3 ops (m_s ex1))"
      using disp extends_runOps by (blast intro: extends_trans)
    then have v: "view (m_s exR) = view si"
      unfolding exR_def using disp by (intro revert_state) simp_all
    have "addressInUse si sender" by (simp add: si_def inUse_incNonce)
    then obtain n bal where si_sender: "view si sender = Some (n, bal)"
      by (auto simp: addressInUse_def view_def)
    have "getNonce (m_s exR) sender = getNonce si sender" "balance (m_s exR) sender = balance si sender"
      by (simp_all add: getNonce_view balance_view v si_sender)
    then show "getNonce (m_s (revert (ex1\<lparr>m_s := runOps sha3 ops (m_s ex1)\<rparr>))) sender
             = getNonce (m_s ex) sender + 1
           \<and> balance (m_s (revert (ex1\<lparr>m_s := runOps sha3 ops (m_s ex1)\<rparr>))) sender
             = balance (m_s ex) sender - m_gasCost ex"
      by (simp add: exR_def si_def sd getNonce_incNonce balance_addBalance)
  qed
  show ?thesis
    using dispatch later create_savepoint [of sha3 rlpList sender endowment gasPrice g init orig ex]
      last_log_incNonce [of sender "m_s ex"]
    by (intro conjI)
qed

text \<open>Scenario S1 of the specification, followed by a frame that moves balances, writes
  storage, runs a failing nested frame and bumps the sender's nonce, and is then reverted:
  the sender keeps nonce 6 and the balance 1000000 - 21000.\<close>

lemma exampleInitialised_executes:
  "\<exists>b ex1. execute exampleSha3 exampleRlpList exampleInitialised = Inr (b, ex1)"
  by (auto simp: exampleInitialised_def example_defs execute_def Let_def isCreation_def call_simple_def
        call_def call_transfer_def transferBalance_def subBalance_def tx_bool_def
        balance_def addressInUse_def addressHasCode_def cache_addBalance cache_incNonce newAccount_def
        split: prod.splits)

theorem nonce_before_savepoint_witness:
  "getNonce (m_s (revert ((executiveOf (execute exampleSha3 exampleRlpList exampleInitialised))
      \<lparr>m_s := runOps exampleSha3 exampleOps
                (m_s (executiveOf (execute exampleSha3 exampleRlpList exampleInitialised)))\<rparr>))) 0xA = 6
   \<and> balance (m_s (revert ((executiveOf (execute exampleSha3 exampleRlpList exampleInitialised))
      \<lparr>m_s := runOps exampleSha3 exampleOps
                (m_s (executiveOf (execute exampleSha3 exampleRlpList exampleInitialised)))\<rparr>))) 0xA = 979000"
proof -
  obtain b ex1 where e: "execute exampleSha3 exampleRlpList exampleInitialised = Inr (b, ex1)"
    using exampleInitialised_executes by blast
  have tx: "tx_bool (m_t exampleInitialised)"
    and snd: "tx_sender (m_t exampleInitialised) = Some 0xA"
    by (simp_all add: exampleInitialised_def example_defs tx_bool_def)
  have "getNonce (m_s exampleInitialised) 0xA = 5" "balance (m_s exampleInitialised) 0xA = 1000000"
    "m_gasCost exampleInitialised = 21000"
    by (simp_all add: exampleInitialised_def example_defs getNonce_def balance_def newAccount_def)
  then show ?thesis
    using nonce_before_savepoint [of exampleInitialised _ _ _ exampleSha3 exampleRlpList "0xA" _ _ _
        exampleOps, THEN conjunct2, THEN conjunct2, THEN conjunct2, rule_format, of b ex1] tx snd e
    by simp
qed

subsection \<open>The address of a created contract\<close>

lemma getNonce_setNewCode [simp]: "getNonce (setNewCode sha3 a c s) b = getNonce s b"
  by (simp add: getNonce_def setNewCode_def updAccount_def pushChange_def split: option.splits)

lemma getNonce_transferBalance [simp]:
  "getNonce (stateOf (transferBalance a b v s)) x = getNonce s x"
  by (simp add: transferBalance_def subBalance_def)

lemma create_state:
  "m_s (executiveOf (create sha3 rlpList sender endowment gasPrice g init orig ex)) =
     (let a = right160 (sha3 (rlpList sender (getNonce (m_s ex) sender)));
          s1 = incNonce sender (m_s ex)
      in case transferBalance sender a endowment s1 of
           Inl (e, s) \<Rightarrow> s
         | Inr s \<Rightarrow>
             let s2 = (if env_number (m_envInfo ex) \<ge> EIP158ForkBlock (m_sealEngine ex)
                       then incNonce a s else s)
             in if init = [] \<and> addressHasCode s2 a then setNewCode sha3 a [] s2 else s2)"
  by (simp add: create_def Let_def split: sum.splits prod.splits)

lemma create_nonce:
  assumes "right160 (sha3 (rlpList sender (getNonce (m_s ex) sender))) \<noteq> sender"
  shows "getNonce (m_s (executiveOf (create sha3 rlpList sender endowment gasPrice g init orig ex))) sender
     = getNonce (m_s ex) sender + 1"
proof -
  define a where "a = right160 (sha3 (rlpList sender (getNonce (m_s ex) sender)))"
  define s1 where "s1 = incNonce sender (m_s ex)"
  have n1: "getNonce s1 sender = getNonce (m_s ex) sender + 1"
    by (simp add: s1_def getNonce_incNonce)
  have tl: "getNonce b sender = getNonce s1 sender"
    if "transferBalance sender a endowment s1 = Inl (e, b)" for e b
    using getNonce_transferBalance [of sender a endowment s1 sender] that by simp
  have tr: "getNonce x sender = getNonce s1 sender"
    if "transferBalance sender a endowment s1 = Inr x" for x
    using getNonce_transferBalance [of sender a endowment s1 sender] that by simp
  have a: "sender \<noteq> a" using assms by (simp add: a_def)
  show ?thesis
    using n1 a
    by (auto simp: create_state Let_def getNonce_incNonce tl tr simp flip: a_def s1_def
             split: sum.splits prod.splits)
qed

lemma create_log_prefix:
  fixes sha3 rlpList sender endowment gasPrice g init orig ex
  defines "r \<equiv> executiveOf (create sha3 rlpList sender endowment gasPrice g init orig ex)"
  shows "take (m_savepoint r) (m_changeLog (m_s r)) = m_changeLog (incNonce sender (m_s ex))"
proof -
  from create_extends [of sender ex sha3 rlpList endowment gasPrice g init orig]
  obtain ext where "m_changeLog (m_s r) = m_changeLog (incNonce sender (m_s ex)) @ ext"
    unfolding extends_def r_def by blast
  then show ?thesis
    by (simp add: r_def create_savepoint savepoint_def)
qed

text \<open>
  C6. The contract address computed by \<open>Executive::create\<close> is the low 160 bits of the
  Keccak-256 digest of the RLP list of the sender and the sender's nonce, the nonce being the
  one fetched before \<open>create\<close> increments it: the change log that \<open>create\<close> leaves starts
  with the log of the state after the sender's nonce has been incremented, its \<open>Nonce\<close>
  entry lying just below the savepoint, and the sender's nonce after \<open>create\<close> is one more
  than the nonce the address was computed from (the sender not being the new address
  itself). Hence two creations by the same sender with the same nonce give the same address,
  whatever the other arguments and the rest of the state.
\<close>

theorem create_address:
  "m_newAddress (executiveOf (create sha3 rlpList sender endowment gasPrice g init orig ex))
     = right160 (sha3 (rlpList sender (getNonce (m_s ex) sender)))
   \<and> getNonce (incNonce sender (m_s ex)) sender = getNonce (m_s ex) sender + 1
   \<and> take (m_savepoint (executiveOf (create sha3 rlpList sender endowment gasPrice g init orig ex)))
        (m_changeLog (m_s (executiveOf (create sha3 rlpList sender endowment gasPrice g init orig ex))))
       = m_changeLog (incNonce sender (m_s ex))
   \<and> last (take (m_savepoint (executiveOf (create sha3 rlpList sender endowment gasPrice g init orig ex)))
        (m_changeLog (m_s (executiveOf (create sha3 rlpList sender endowment gasPrice g init orig ex)))))
       = mkChange Nonce sender 0
   \<and> (m_newAddress (executiveOf (create sha3 rlpList sender endowment gasPrice g init orig ex)) \<noteq> sender \<longrightarrow>
        getNonce (m_s (executiveOf (create sha3 rlpList sender endowment gasPrice g init orig ex))) sender
          = getNonce (m_s ex) sender + 1)
   \<and> (getNonce (m_s ex) sender = getNonce (m_s ex2) sender \<longrightarrow>
        m_newAddress (executiveOf (create sha3 rlpList sender endowment gasPrice g init orig ex))
        = m_newAddress (executiveOf (create sha3 rlpList sender endowment2 gasPrice2 g2 init2 orig2 ex2)))"
proof -
  have addr: "m_newAddress (executiveOf (create sha3 rlpList sender e gp gs i og x))
     = right160 (sha3 (rlpList sender (getNonce (m_s x) sender)))" for e gp gs i og x
    by (simp add: create_def Let_def split: sum.splits prod.splits)
  have prefix: "take (m_savepoint (executiveOf (create sha3 rlpList sender endowment gasPrice g init orig ex)))
        (m_changeLog (m_s (executiveOf (create sha3 rlpList sender endowment gasPrice g init orig ex))))
       = m_changeLog (incNonce sender (m_s ex))"
    by (rule create_log_prefix)
  have nonce: "m_newAddress (executiveOf (create sha3 rlpList sender endowment gasPrice g init orig ex)) \<noteq> sender \<longrightarrow>
        getNonce (m_s (executiveOf (create sha3 rlpList sender endowment gasPrice g init orig ex))) sender
          = getNonce (m_s ex) sender + 1"
    using create_nonce [of sha3 rlpList sender ex endowment gasPrice g init orig] by (simp add: addr)
  show ?thesis
    using nonce by (simp add: addr prefix getNonce_incNonce last_log_incNonce)
qed

text \<open>Two creations by \<open>0xA\<close> at nonce 5 give the same address, and the first leaves
  the sender with nonce 6 and the \<open>Nonce\<close> entry below its savepoint.\<close>

theorem create_address_witness:
  "m_newAddress (executiveOf (create exampleSha3 exampleRlpList 0xA 0 1 1000 [] 0xA exampleExecutive)) = 5
   \<and> m_newAddress (executiveOf (create exampleSha3 exampleRlpList 0xA 7 2 50 [1] 0xC
        (exampleExecutive\<lparr>m_s := addBalance 0xB 1 exampleState\<rparr>))) = 5
   \<and> getNonce (m_s (executiveOf (create exampleSha3 exampleRlpList 0xA 0 1 1000 [] 0xA exampleExecutive))) 0xA = 6
   \<and> take (m_savepoint (executiveOf (create exampleSha3 exampleRlpList 0xA 0 1 1000 [] 0xA exampleExecutive)))
        (m_changeLog (m_s (executiveOf (create exampleSha3 exampleRlpList 0xA 0 1 1000 [] 0xA exampleExecutive))))
       = [mkChange Nonce 0xA 0]"
proof -
  note t = create_address [of exampleSha3 exampleRlpList "0xA" 0 1 1000 "[]" "0xA" exampleExecutive]
  have a1: "m_newAddress (executiveOf (create exampleSha3 exampleRlpList 0xA 0 1 1000 [] 0xA exampleExecutive)) = 5"
    using t [THEN conjunct1]
    by (simp add: example_defs exampleSha3_def exampleRlpList_def getNonce_def right160_def newAccount_def)
  have a2: "m_newAddress (executiveOf (create exampleSha3 exampleRlpList 0xA 7 2 50 [1] 0xC
        (exampleExecutive\<lparr>m_s := addBalance 0xB 1 exampleState\<rparr>))) = 5"
    using create_address [of exampleSha3 exampleRlpList "0xA" 7 2 50 "[1]" "0xC"
      "exampleExecutive\<lparr>m_s := addBalance 0xB 1 exampleState\<rparr>", THEN conjunct1]
    by (simp add: example_defs exampleSha3_def exampleRlpList_def getNonce_def right160_def
          newAccount_def cache_addBalance)
  have n0: "getNonce (m_s exampleExecutive) 0xA = 5"
    by (simp add: example_defs getNonce_def newAccount_def)
  have n: "getNonce (m_s (executiveOf (create exampleSha3 exampleRlpList 0xA 0 1 1000 [] 0xA exampleExecutive))) 0xA = 6"
    using t [THEN conjunct2, THEN conjunct2, THEN conjunct2, THEN conjunct2, THEN conjunct1]
    by (simp add: a1 n0)
  have l: "take (m_savepoint (executiveOf (create exampleSha3 exampleRlpList 0xA 0 1 1000 [] 0xA exampleExecutive)))
        (m_changeLog (m_s (executiveOf (create exampleSha3 exampleRlpList 0xA 0 1 1000 [] 0xA exampleExecutive))))
       = [mkChange Nonce 0xA 0]"
    using t [THEN conjunct2, THEN conjunct2, THEN conjunct1]
    by (simp add: example_defs incNonce_def ensureAccount_def addressInUse_def updAccount_def pushChange_def)
  show ?thesis
    using a1 a2 n l by (intro conjI)
qed

subsection \<open>What \<open>commit\<close> writes\<close>

lemma commitStorage_lookup:
  "distinct (map fst ov) \<Longrightarrow>
   commitStorage orc ov m k =
     (case map_of ov k of
        None \<Rightarrow> m k
      | Some v \<Rightarrow> if v \<noteq> 0 then Some (rlp orc v) else None)"
proof (induction ov arbitrary: m)
  case Nil
  show ?case by simp
next
  case (Cons j ov)
  then have "map_of ov (fst j) = None"
    by (simp add: map_of_eq_None_iff)
  with Cons show ?case
    by (cases j) (auto split: option.splits)
qed

lemma commitAccount_state:
  assumes "commitAccount orc a acc st = Some st'"
  shows "ct_state st' = (ct_state st)(a :=
           (if \<not> acc_isAlive acc then None
            else map_option (accountRLP orc acc) (commitStorageRoot orc acc)))"
  using assms
  by (auto simp: commitAccount_def accountRLP_def Let_def split: if_splits option.splits)

lemma commitAccount_db:
  assumes "commitAccount orc a acc st = Some st'"
  shows "ct_db st' =
           (if acc_isAlive acc \<and> acc_hasNewCode acc
            then (ct_db st)(acc_codeHash acc \<mapsto> acc_code acc) else ct_db st)"
    and "ct_codeSizes st' =
           (if acc_isAlive acc \<and> acc_hasNewCode acc
            then (ct_codeSizes st)(acc_codeHash acc \<mapsto> size_t (length (acc_code acc)))
            else ct_codeSizes st)"
  using assms
  by (auto simp: commitAccount_def Let_def split: if_splits option.splits)

lemma commitAccount_root:
  assumes "commitAccount orc a acc st = Some st'" "acc_isAlive acc"
  shows "\<exists>root. commitStorageRoot orc acc = Some root \<and> root \<noteq> 0"
  using assms
  by (auto simp: commitAccount_def commitStorageRoot_def Let_def split: if_splits option.splits)

lemma commitLoop_ret:
  "commitLoop orc cache (st, ret) = Some (st', ret') \<Longrightarrow>
   ret' = ret \<union> fst ` {i \<in> set cache. acc_isDirty (snd i)}"
proof (induction cache arbitrary: st ret)
  case Nil
  then show ?case by simp
next
  case (Cons i cache)
  show ?case
  proof (cases "acc_isDirty (snd i)")
    case True
    with Cons.prems obtain st1 where
      "commitAccount orc (fst i) (snd i) st = Some st1"
      "commitLoop orc cache (st1, insert (fst i) ret) = Some (st', ret')"
      by (auto split: option.splits)
    with Cons.IH [of st1 "insert (fst i) ret"] True show ?thesis by auto
  next
    case False
    with Cons.prems Cons.IH [of st ret] show ?thesis by auto
  qed
qed

lemma commitLoop_state_other:
  "commitLoop orc cache (st, ret) = Some (st', ret') \<Longrightarrow>
   a \<notin> fst ` {i \<in> set cache. acc_isDirty (snd i)} \<Longrightarrow> ct_state st' a = ct_state st a"
proof (induction cache arbitrary: st ret)
  case Nil
  then show ?case by simp
next
  case (Cons i cache)
  show ?case
  proof (cases "acc_isDirty (snd i)")
    case True
    with Cons.prems(1) obtain st1 where
      1: "commitAccount orc (fst i) (snd i) st = Some st1"
      and 2: "commitLoop orc cache (st1, insert (fst i) ret) = Some (st', ret')"
      by (auto split: option.splits)
    from Cons.prems(2) True have "a \<noteq> fst i" "a \<notin> fst ` {i \<in> set cache. acc_isDirty (snd i)}"
      by auto
    then show ?thesis
      using Cons.IH [OF 2] commitAccount_state [OF 1] by simp
  next
    case False
    with Cons.prems Cons.IH [of st ret] show ?thesis by auto
  qed
qed

lemma commitLoop_state_dirty:
  "commitLoop orc cache (st, ret) = Some (st', ret') \<Longrightarrow> distinct (map fst cache) \<Longrightarrow>
   (a, acc) \<in> set cache \<Longrightarrow> acc_isDirty acc \<Longrightarrow>
   ct_state st' a = (if \<not> acc_isAlive acc then None
                     else map_option (accountRLP orc acc) (commitStorageRoot orc acc))
   \<and> (acc_isAlive acc \<longrightarrow> (\<exists>root. commitStorageRoot orc acc = Some root \<and> root \<noteq> 0))"
proof (induction cache arbitrary: st ret)
  case Nil
  then show ?case by simp
next
  case (Cons i cache)
  show ?case
  proof (cases "i = (a, acc)")
    case True
    with Cons.prems obtain st1 where
      1: "commitAccount orc a acc st = Some st1"
      and 2: "commitLoop orc cache (st1, insert a ret) = Some (st', ret')"
      by (auto split: option.splits)
    from Cons.prems(2) True have "a \<notin> fst ` {i \<in> set cache. acc_isDirty (snd i)}"
      by force
    then have "ct_state st' a = ct_state st1 a"
      by (rule commitLoop_state_other [OF 2])
    then show ?thesis
      using commitAccount_state [OF 1] commitAccount_root [OF 1] by simp
  next
    case False
    with Cons.prems have mem: "(a, acc) \<in> set cache" and d: "distinct (map fst cache)"
      by auto
    show ?thesis
    proof (cases "acc_isDirty (snd i)")
      case True
      with Cons.prems(1) obtain st1 where
        "commitLoop orc cache (st1, insert (fst i) ret) = Some (st', ret')"
        by (auto split: option.splits)
      then show ?thesis by (rule Cons.IH [OF _ d mem Cons.prems(4)])
    next
      case False
      with Cons.prems(1) have "commitLoop orc cache (st, ret) = Some (st', ret')" by simp
      then show ?thesis by (rule Cons.IH [OF _ d mem Cons.prems(4)])
    qed
  qed
qed

lemma commitLoop_db_keeps:
  "commitLoop orc cache (st, ret) = Some (st', ret') \<Longrightarrow>
   ct_db st h = Some c \<Longrightarrow> ct_codeSizes st h = Some (size_t (length c)) \<Longrightarrow>
   (\<forall>i \<in> set cache. acc_hasNewCode (snd i) \<and> acc_codeHash (snd i) = h \<longrightarrow> acc_code (snd i) = c) \<Longrightarrow>
   ct_db st' h = Some c \<and> ct_codeSizes st' h = Some (size_t (length c))"
proof (induction cache arbitrary: st ret)
  case Nil
  then show ?case by simp
next
  case (Cons i cache)
  show ?case
  proof (cases "acc_isDirty (snd i)")
    case True
    with Cons.prems(1) obtain st1 where
      1: "commitAccount orc (fst i) (snd i) st = Some st1"
      and 2: "commitLoop orc cache (st1, insert (fst i) ret) = Some (st', ret')"
      by (auto split: option.splits)
    have "ct_db st1 h = Some c \<and> ct_codeSizes st1 h = Some (size_t (length c))"
      using commitAccount_db [OF 1] Cons.prems(2,3,4) by auto
    then show ?thesis
      using Cons.IH [OF 2] Cons.prems(4) by simp
  next
    case False
    with Cons.prems Cons.IH [of st ret] show ?thesis by simp
  qed
qed

lemma codeConsistent_tail: "codeConsistent (i # cache) \<Longrightarrow> codeConsistent cache"
  unfolding codeConsistent_def by (meson list.set_intros(2))

lemma codeConsistent_head:
  assumes "codeConsistent (i # cache)" "j \<in> set cache" "acc_hasNewCode (snd i)" "acc_hasNewCode (snd j)"
    "acc_codeHash (snd j) = acc_codeHash (snd i)"
  shows "acc_code (snd j) = acc_code (snd i)"
proof -
  have "i \<in> set (i # cache)" "j \<in> set (i # cache)" using assms(2) by simp_all
  then show ?thesis
    using assms(1,3,4,5) unfolding codeConsistent_def by metis
qed

lemma commitLoop_db_new:
  "commitLoop orc cache (st, ret) = Some (st', ret') \<Longrightarrow> codeConsistent cache \<Longrightarrow>
   (a, acc) \<in> set cache \<Longrightarrow> acc_isDirty acc \<Longrightarrow> acc_isAlive acc \<Longrightarrow> acc_hasNewCode acc \<Longrightarrow>
   ct_db st' (acc_codeHash acc) = Some (acc_code acc)
   \<and> ct_codeSizes st' (acc_codeHash acc) = Some (size_t (length (acc_code acc)))"
proof (induction cache arbitrary: st ret)
  case Nil
  then show ?case by simp
next
  case (Cons i cache)
  have cons: "codeConsistent cache"
    using Cons.prems(2) by (rule codeConsistent_tail)
  show ?case
  proof (cases "i = (a, acc)")
    case True
    with Cons.prems(1,4) obtain st1 where
      1: "commitAccount orc a acc st = Some st1"
      and 2: "commitLoop orc cache (st1, insert a ret) = Some (st', ret')"
      by (auto split: option.splits)
    have same: "\<forall>j \<in> set cache. acc_hasNewCode (snd j) \<and> acc_codeHash (snd j) = acc_codeHash acc
        \<longrightarrow> acc_code (snd j) = acc_code acc"
    proof (intro ballI impI)
      fix j assume "j \<in> set cache"
        "acc_hasNewCode (snd j) \<and> acc_codeHash (snd j) = acc_codeHash acc"
      then show "acc_code (snd j) = acc_code acc"
        using codeConsistent_head [of i cache j] Cons.prems(2,6) True by simp
    qed
    have db1: "ct_db st1 (acc_codeHash acc) = Some (acc_code acc)"
      and sz1: "ct_codeSizes st1 (acc_codeHash acc) = Some (size_t (length (acc_code acc)))"
      using commitAccount_db [OF 1] Cons.prems(5,6) by simp_all
    show ?thesis
      by (rule commitLoop_db_keeps [OF 2 db1 sz1 same])
  next
    case False
    with Cons.prems(3) have mem: "(a, acc) \<in> set cache" by simp
    show ?thesis
    proof (cases "acc_isDirty (snd i)")
      case True
      with Cons.prems(1) obtain st1 where
        "commitLoop orc cache (st1, insert (fst i) ret) = Some (st', ret')"
        by (auto split: option.splits)
      then show ?thesis
        by (rule Cons.IH [OF _ cons mem Cons.prems(4,5,6)])
    next
      case False
      with Cons.prems(1) have "commitLoop orc cache (st, ret) = Some (st', ret')" by simp
      then show ?thesis
        by (rule Cons.IH [OF _ cons mem Cons.prems(4,5,6)])
    qed
  qed
qed

lemma commitLoop_total:
  "(\<forall>i \<in> set cache. acc_isDirty (snd i) \<and> acc_isAlive (snd i) \<longrightarrow> commitStorageRoot orc (snd i) \<noteq> None) \<Longrightarrow>
   \<exists>r. commitLoop orc cache (st, ret) = Some r"
proof (induction cache arbitrary: st ret)
  case Nil
  show ?case by simp
next
  case (Cons i cache)
  then show ?case
    by (auto simp: commitAccount_def Let_def split: option.splits prod.splits)
qed

lemma commitLoop_db_other:
  "commitLoop orc cache (st, ret) = Some (st', ret') \<Longrightarrow>
   h \<notin> (acc_codeHash \<circ> snd) ` {i \<in> set cache. acc_isDirty (snd i) \<and> acc_isAlive (snd i) \<and> acc_hasNewCode (snd i)} \<Longrightarrow>
   ct_db st' h = ct_db st h \<and> ct_codeSizes st' h = ct_codeSizes st h"
proof (induction cache arbitrary: st ret)
  case Nil
  then show ?case by simp
next
  case (Cons i cache)
  have rest: "h \<notin> (acc_codeHash \<circ> snd) ` {i \<in> set cache. acc_isDirty (snd i) \<and> acc_isAlive (snd i) \<and> acc_hasNewCode (snd i)}"
    using Cons.prems(2) by auto
  show ?case
  proof (cases "acc_isDirty (snd i)")
    case True
    with Cons.prems(1) obtain st1 where
      1: "commitAccount orc (fst i) (snd i) st = Some st1"
      and 2: "commitLoop orc cache (st1, insert (fst i) ret) = Some (st', ret')"
      by (auto split: option.splits)
    have "acc_isAlive (snd i) \<and> acc_hasNewCode (snd i) \<longrightarrow> h \<noteq> acc_codeHash (snd i)"
      using Cons.prems(2) True by auto
    then have "ct_db st1 h = ct_db st h \<and> ct_codeSizes st1 h = ct_codeSizes st h"
      using commitAccount_db [OF 1] by auto
    then show ?thesis
      using Cons.IH [OF 2 rest] by simp
  next
    case False
    with Cons.prems(1) have "commitLoop orc cache (st, ret) = Some (st', ret')" by simp
    then show ?thesis by (rule Cons.IH [OF _ rest])
  qed
qed

lemma commit_writes:
  assumes run: "commit orc cache st = Some (st', ret)"
    and keys: "distinct (map fst cache)"
    and codes: "codeConsistent cache"
  shows "ret = set (map fst (filter (\<lambda>i. acc_isDirty (snd i)) cache))
    \<and> (\<forall>a. a \<notin> ret \<longrightarrow> ct_state st' a = ct_state st a)
    \<and> (\<forall>(a, acc) \<in> set cache. acc_isDirty acc \<and> \<not> acc_isAlive acc \<longrightarrow> ct_state st' a = None)
    \<and> (\<forall>(a, acc) \<in> set cache. acc_isDirty acc \<and> acc_isAlive acc \<longrightarrow>
          ct_state st' a =
            Some (accountRLP orc acc
                   (if acc_storageOverlay acc = [] then acc_baseRoot acc
                    else trieRoot orc (commitStorage orc (acc_storageOverlay acc)
                                         (storageAt orc (acc_baseRoot acc))))))
    \<and> (\<forall>(a, acc) \<in> set cache. \<forall>k. distinct (map fst (acc_storageOverlay acc)) \<longrightarrow>
          commitStorage orc (acc_storageOverlay acc) (storageAt orc (acc_baseRoot acc)) k =
            (case map_of (acc_storageOverlay acc) k of
               None \<Rightarrow> storageAt orc (acc_baseRoot acc) k
             | Some v \<Rightarrow> if v \<noteq> 0 then Some (rlp orc v) else None))
    \<and> (\<forall>(a, acc) \<in> set cache. acc_isDirty acc \<and> acc_isAlive acc \<and> acc_hasNewCode acc \<longrightarrow>
          ct_db st' (acc_codeHash acc) = Some (acc_code acc)
          \<and> ct_codeSizes st' (acc_codeHash acc) = Some (size_t (length (acc_code acc))))
    \<and> (\<forall>h. h \<notin> set (map (acc_codeHash \<circ> snd)
                 (filter (\<lambda>i. acc_isDirty (snd i) \<and> acc_isAlive (snd i) \<and> acc_hasNewCode (snd i)) cache)) \<longrightarrow>
          ct_db st' h = ct_db st h \<and> ct_codeSizes st' h = ct_codeSizes st h)"
proof -
  from run have loop: "commitLoop orc cache (st, {}) = Some (st', ret)"
    by (simp add: commit_def)
  have r0: "ret = fst ` {i \<in> set cache. acc_isDirty (snd i)}"
    using commitLoop_ret [OF loop] by simp
  then have r: "ret = set (map fst (filter (\<lambda>i. acc_isDirty (snd i)) cache))"
    by auto
  have other: "\<forall>a. a \<notin> ret \<longrightarrow> ct_state st' a = ct_state st a"
    using commitLoop_state_other [OF loop] r0 by simp
  have dead: "\<forall>(a, acc) \<in> set cache. acc_isDirty acc \<and> \<not> acc_isAlive acc \<longrightarrow> ct_state st' a = None"
    using commitLoop_state_dirty [OF loop keys] by auto
  have alive: "\<forall>(a, acc) \<in> set cache. acc_isDirty acc \<and> acc_isAlive acc \<longrightarrow>
          ct_state st' a =
            Some (accountRLP orc acc
                   (if acc_storageOverlay acc = [] then acc_baseRoot acc
                    else trieRoot orc (commitStorage orc (acc_storageOverlay acc)
                                         (storageAt orc (acc_baseRoot acc)))))"
  proof (intro ballI, clarify)
    fix a acc assume m: "(a, acc) \<in> set cache" and d: "acc_isDirty acc" and l: "acc_isAlive acc"
    from commitLoop_state_dirty [OF loop keys m d] l obtain root where
      "ct_state st' a = Some (accountRLP orc acc root)" "commitStorageRoot orc acc = Some root"
      by auto
    then show "ct_state st' a =
            Some (accountRLP orc acc
                   (if acc_storageOverlay acc = [] then acc_baseRoot acc
                    else trieRoot orc (commitStorage orc (acc_storageOverlay acc)
                                         (storageAt orc (acc_baseRoot acc)))))"
      by (auto simp: commitStorageRoot_def Let_def split: if_splits)
  qed
  have overlay: "\<forall>(a, acc) \<in> set cache. \<forall>k. distinct (map fst (acc_storageOverlay acc)) \<longrightarrow>
          commitStorage orc (acc_storageOverlay acc) (storageAt orc (acc_baseRoot acc)) k =
            (case map_of (acc_storageOverlay acc) k of
               None \<Rightarrow> storageAt orc (acc_baseRoot acc) k
             | Some v \<Rightarrow> if v \<noteq> 0 then Some (rlp orc v) else None)"
    by (auto simp: commitStorage_lookup)
  have newcode: "\<forall>(a, acc) \<in> set cache. acc_isDirty acc \<and> acc_isAlive acc \<and> acc_hasNewCode acc \<longrightarrow>
          ct_db st' (acc_codeHash acc) = Some (acc_code acc)
          \<and> ct_codeSizes st' (acc_codeHash acc) = Some (size_t (length (acc_code acc)))"
    using commitLoop_db_new [OF loop codes] by blast
  have "set (map (acc_codeHash \<circ> snd)
              (filter (\<lambda>i. acc_isDirty (snd i) \<and> acc_isAlive (snd i) \<and> acc_hasNewCode (snd i)) cache))
      = (acc_codeHash \<circ> snd) ` {i \<in> set cache. acc_isDirty (snd i) \<and> acc_isAlive (snd i) \<and> acc_hasNewCode (snd i)}"
    by auto
  then have dbother: "\<forall>h. h \<notin> set (map (acc_codeHash \<circ> snd)
                 (filter (\<lambda>i. acc_isDirty (snd i) \<and> acc_isAlive (snd i) \<and> acc_hasNewCode (snd i)) cache)) \<longrightarrow>
          ct_db st' h = ct_db st h \<and> ct_codeSizes st' h = ct_codeSizes st h"
    using commitLoop_db_other [OF loop] by simp
  show ?thesis
    using r other dead alive overlay newcode dbother by (intro conjI)
qed

text \<open>
  C8. \<open>commit\<close> returns whenever its assertions on the storage roots hold, and it then
  has processed exactly the dirty accounts of the cache: the addresses it returns
  are those of the dirty accounts and the state trie is unchanged elsewhere; a dirty account
  that is not alive is removed from the state trie; a dirty alive account is stored under
  its address as the RLP list of nonce, balance, storage root and code hash, where the
  storage root is that of the storage trie at \<open>baseRoot\<close> with the overlay applied (a
  non-zero value inserted RLP-encoded, a key with value 0 removed), the trie being left as
  it is when the overlay is empty; and for new code, the code is inserted into the database
  under its hash and its size is stored in the code-size cache, the database being unchanged
  under every other key.
\<close>

theorem commit_dirty_accounts:
  assumes roots: "\<forall>(a, acc) \<in> set cache. acc_isDirty acc \<and> acc_isAlive acc \<longrightarrow>
                    commitStorageRoot orc acc \<noteq> None"
    and keys: "distinct (map fst cache)"
    and codes: "codeConsistent cache"
  shows "\<exists>st' ret. commit orc cache st = Some (st', ret) \<and>
    ret = set (map fst (filter (\<lambda>i. acc_isDirty (snd i)) cache))
      \<and> (\<forall>a. a \<notin> ret \<longrightarrow> ct_state st' a = ct_state st a)
      \<and> (\<forall>(a, acc) \<in> set cache. acc_isDirty acc \<and> \<not> acc_isAlive acc \<longrightarrow> ct_state st' a = None)
      \<and> (\<forall>(a, acc) \<in> set cache. acc_isDirty acc \<and> acc_isAlive acc \<longrightarrow>
            ct_state st' a =
              Some (accountRLP orc acc
                     (if acc_storageOverlay acc = [] then acc_baseRoot acc
                      else trieRoot orc (commitStorage orc (acc_storageOverlay acc)
                                           (storageAt orc (acc_baseRoot acc))))))
      \<and> (\<forall>(a, acc) \<in> set cache. \<forall>k. distinct (map fst (acc_storageOverlay acc)) \<longrightarrow>
            commitStorage orc (acc_storageOverlay acc) (storageAt orc (acc_baseRoot acc)) k =
              (case map_of (acc_storageOverlay acc) k of
                 None \<Rightarrow> storageAt orc (acc_baseRoot acc) k
               | Some v \<Rightarrow> if v \<noteq> 0 then Some (rlp orc v) else None))
      \<and> (\<forall>(a, acc) \<in> set cache. acc_isDirty acc \<and> acc_isAlive acc \<and> acc_hasNewCode acc \<longrightarrow>
            ct_db st' (acc_codeHash acc) = Some (acc_code acc)
            \<and> ct_codeSizes st' (acc_codeHash acc) = Some (size_t (length (acc_code acc))))
      \<and> (\<forall>h. h \<notin> set (map (acc_codeHash \<circ> snd)
                   (filter (\<lambda>i. acc_isDirty (snd i) \<and> acc_isAlive (snd i) \<and> acc_hasNewCode (snd i)) cache)) \<longrightarrow>
            ct_db st' h = ct_db st h \<and> ct_codeSizes st' h = ct_codeSizes st h)"
proof -
  from roots have "\<forall>i \<in> set cache. acc_isDirty (snd i) \<and> acc_isAlive (snd i) \<longrightarrow>
      commitStorageRoot orc (snd i) \<noteq> None"
    by auto
  then obtain st' ret where run: "commit orc cache st = Some (st', ret)"
    using commitLoop_total [of cache orc st "{}"] by (auto simp: commit_def)
  show ?thesis
    using run commit_writes [OF run keys codes] by blast
qed

lemmas example_commit_defs = exampleOracle_def exampleCache_def exampleTarget_def newAccount_def

lemma exampleCache_consistent: "distinct (map fst exampleCache) \<and> codeConsistent exampleCache"
  by (simp add: example_commit_defs codeConsistent_def)

lemma exampleCache_roots:
  "\<forall>(a, acc) \<in> set exampleCache. acc_isDirty acc \<and> acc_isAlive acc \<longrightarrow>
     commitStorageRoot exampleOracle acc \<noteq> None"
  by (simp add: example_commit_defs commitStorageRoot_def Let_def)

text \<open>The example cache: three dirty accounts are committed, the clean one is left alone.\<close>

theorem commit_dirty_accounts_witness:
  "map_option snd (commit exampleOracle exampleCache exampleTarget) = Some {0xA, 0xB, 0xC}
   \<and> map_option (\<lambda>r. ct_state (fst r) 0xA) (commit exampleOracle exampleCache exampleTarget)
        = Some (Some [6, 200, 1, 5])
   \<and> map_option (\<lambda>r. ct_state (fst r) 0xB) (commit exampleOracle exampleCache exampleTarget) = Some None
   \<and> map_option (\<lambda>r. ct_state (fst r) 0xC) (commit exampleOracle exampleCache exampleTarget)
        = Some (Some [1, 0, 2, 9])
   \<and> map_option (\<lambda>r. ct_state (fst r) 0xD) (commit exampleOracle exampleCache exampleTarget)
        = Some (Some [9])
   \<and> map_option (\<lambda>r. ct_db (fst r) 9) (commit exampleOracle exampleCache exampleTarget)
        = Some (Some [0x60])
   \<and> map_option (\<lambda>r. ct_codeSizes (fst r) 9) (commit exampleOracle exampleCache exampleTarget)
        = Some (Some 1)"
proof -
  obtain st' ret where c: "commit exampleOracle exampleCache exampleTarget = Some (st', ret)"
    and facts: "ret = set (map fst (filter (\<lambda>i. acc_isDirty (snd i)) exampleCache))
        \<and> (\<forall>a. a \<notin> ret \<longrightarrow> ct_state st' a = ct_state exampleTarget a)
        \<and> (\<forall>(a, acc) \<in> set exampleCache. acc_isDirty acc \<and> \<not> acc_isAlive acc \<longrightarrow> ct_state st' a = None)
        \<and> (\<forall>(a, acc) \<in> set exampleCache. acc_isDirty acc \<and> acc_isAlive acc \<longrightarrow>
              ct_state st' a =
                Some (accountRLP exampleOracle acc
                       (if acc_storageOverlay acc = [] then acc_baseRoot acc
                        else trieRoot exampleOracle (commitStorage exampleOracle (acc_storageOverlay acc)
                                             (storageAt exampleOracle (acc_baseRoot acc))))))
        \<and> (\<forall>(a, acc) \<in> set exampleCache. \<forall>k. distinct (map fst (acc_storageOverlay acc)) \<longrightarrow>
              commitStorage exampleOracle (acc_storageOverlay acc) (storageAt exampleOracle (acc_baseRoot acc)) k =
                (case map_of (acc_storageOverlay acc) k of
                   None \<Rightarrow> storageAt exampleOracle (acc_baseRoot acc) k
                 | Some v \<Rightarrow> if v \<noteq> 0 then Some (rlp exampleOracle v) else None))
        \<and> (\<forall>(a, acc) \<in> set exampleCache. acc_isDirty acc \<and> acc_isAlive acc \<and> acc_hasNewCode acc \<longrightarrow>
              ct_db st' (acc_codeHash acc) = Some (acc_code acc)
              \<and> ct_codeSizes st' (acc_codeHash acc) = Some (size_t (length (acc_code acc))))
        \<and> (\<forall>h. h \<notin> set (map (acc_codeHash \<circ> snd)
                     (filter (\<lambda>i. acc_isDirty (snd i) \<and> acc_isAlive (snd i) \<and> acc_hasNewCode (snd i)) exampleCache)) \<longrightarrow>
              ct_db st' h = ct_db exampleTarget h \<and> ct_codeSizes st' h = ct_codeSizes exampleTarget h)"
    using commit_dirty_accounts [OF exampleCache_roots exampleCache_consistent [THEN conjunct1]
        exampleCache_consistent [THEN conjunct2], of exampleTarget]
    by blast
  have ret: "ret = {0xA, 0xB, 0xC}"
    using facts [THEN conjunct1] by (simp add: example_commit_defs)
  have "0xD \<notin> ret" by (simp add: ret)
  then have d: "ct_state st' 0xD = Some [9]"
    using facts [THEN conjunct2, THEN conjunct1] by (simp add: example_commit_defs)
  have rest: "ct_state st' 0xB = None" "ct_state st' 0xA = Some [6, 200, 1, 5]"
    "ct_state st' 0xC = Some [1, 0, 2, 9]" "ct_db st' 9 = Some [0x60]" "ct_codeSizes st' 9 = Some 1"
    using facts by (simp_all add: example_commit_defs accountRLP_def size_t_def)
  show ?thesis
    by (simp add: c ret d rest)
qed

end
